theory Spec2Isabelle
  imports Main "HOL-Library.Word"
begin

section \<open>Decoded images and pixel access\<close>

text \<open>
  The converter (\<^verbatim>\<open>src/scripts/convert-bmp.py\<close>) works on images decoded to mode RGBA:
  every pixel is a tuple \<^verbatim>\<open>(r, g, b, a)\<close> of four 8-bit channels. An image has a size
  \<^verbatim>\<open>(w, h)\<close> and a buffer of \<open>w * h\<close> pixels, stored row by row; the pixel at \<^verbatim>\<open>(x, y)\<close>
  is the entry \<open>y * w + x\<close> of the buffer.
\<close>

type_synonym channel = "8 word"

type_synonym pixel = "channel \<times> channel \<times> channel \<times> channel"

datatype error =
    IndexError
  | FileNotFoundError
  | FileExistsError
  | IsADirectoryError
  | NotADirectoryError
  | UnidentifiedImageError

record image =
  size_w :: nat
  size_h :: nat
  data :: "pixel list"

definition red :: "pixel \<Rightarrow> channel" where
  "red p = fst p"

definition green :: "pixel \<Rightarrow> channel" where
  "green p = fst (snd p)"

definition blue :: "pixel \<Rightarrow> channel" where
  "blue p = fst (snd (snd p))"

definition alpha :: "pixel \<Rightarrow> channel" where
  "alpha p = snd (snd (snd p))"

text \<open>
  The buffer of a decoded image holds one pixel for every coordinate of its size.
\<close>

definition wf_image :: "image \<Rightarrow> bool" where
  "wf_image img \<longleftrightarrow> length (data img) = size_w img * size_h img"

text \<open>
  \<^verbatim>\<open>pixels = img.load()\<close> gives the pixel access object: \<^verbatim>\<open>pixels[x, y]\<close> reads a pixel
  and \<^verbatim>\<open>pixels[x, y] = v\<close> writes one in place. Both raise \<^verbatim>\<open>IndexError\<close> for a
  coordinate outside the image. The coordinates of the program come from \<^verbatim>\<open>range\<close>
  and the literal \<^verbatim>\<open>0\<close>, so they are natural numbers.
\<close>

definition pixels_get :: "image \<Rightarrow> nat \<Rightarrow> nat \<Rightarrow> error + pixel" where
  "pixels_get img x y =
     (if x < size_w img \<and> y < size_h img
      then Inr (data img ! (y * size_w img + x))
      else Inl IndexError)"

definition pixels_set :: "image \<Rightarrow> nat \<Rightarrow> nat \<Rightarrow> pixel \<Rightarrow> error + image" where
  "pixels_set img x y v =
     (if x < size_w img \<and> y < size_h img
      then Inr (img\<lparr>data := (data img)[y * size_w img + x := v]\<rparr>)
      else Inl IndexError)"

section \<open>Colorkey extraction (the pixel loop of \<^verbatim>\<open>convert_enemy\<close>)\<close>

text \<open>
  Lines 57 to 65 of the source:
  \<^verbatim>\<open>
    pixels = img.load()
    bg = pixels[0, 0]
    w, h = img.size
    for y in range(h):
        for x in range(w):
            r, g, b, a = pixels[x, y]
            if (r, g, b) == (bg[0], bg[1], bg[2]):
                pixels[x, y] = (r, g, b, 0)
  \<close>
  \<open>scan_row\<close> is the inner loop over \<open>x\<close> for a fixed \<open>y\<close>, \<open>scan_rows\<close> the outer loop over
  \<open>y\<close>. The image is threaded through the loops, since the writes are in place; \<open>bg\<close> is
  a tuple read once before the loops.
\<close>

fun scan_row :: "pixel \<Rightarrow> nat \<Rightarrow> nat list \<Rightarrow> image \<Rightarrow> error + image" where
  "scan_row bg y [] img = Inr img"
| "scan_row bg y (x # xs) img =
     (case pixels_get img x y of
        Inl e \<Rightarrow> Inl e
      | Inr (r, g, b, a) \<Rightarrow>
          if (r, g, b) = (red bg, green bg, blue bg)
          then (case pixels_set img x y (r, g, b, 0) of
                  Inl e \<Rightarrow> Inl e
                | Inr img' \<Rightarrow> scan_row bg y xs img')
          else scan_row bg y xs img)"

fun scan_rows :: "pixel \<Rightarrow> nat \<Rightarrow> nat list \<Rightarrow> image \<Rightarrow> error + image" where
  "scan_rows bg w [] img = Inr img"
| "scan_rows bg w (y # ys) img =
     (case scan_row bg y [0..<w] img of
        Inl e \<Rightarrow> Inl e
      | Inr img' \<Rightarrow> scan_rows bg w ys img')"

definition colorkey :: "image \<Rightarrow> error + image" where
  "colorkey img =
     (case pixels_get img 0 0 of
        Inl e \<Rightarrow> Inl e
      | Inr bg \<Rightarrow>
          (let w = size_w img; h = size_h img
           in scan_rows bg w [0..<h] img))"

subsection \<open>The extraction as the specification words it\<close>

text \<open>
  The specification describes the extraction as a map that is applied to every pixel
  on its own: a pixel whose colour is the key's gets alpha 0 and keeps its colour, any
  other pixel is kept. \<open>key_out\<close> is that map for one pixel and \<open>colorkey_map\<close> applies it
  to the whole buffer, with the key read at coordinate \<open>(0, 0)\<close>.
\<close>

definition key_out :: "pixel \<Rightarrow> pixel \<Rightarrow> pixel" where
  "key_out bg p =
     (if (red p, green p, blue p) = (red bg, green bg, blue bg)
      then (red p, green p, blue p, 0)
      else p)"

definition colorkey_map :: "image \<Rightarrow> image" where
  "colorkey_map img = img\<lparr>data := map (key_out (data img ! 0)) (data img)\<rparr>"

text \<open>
  The same test and write as the body of the source's loops, run over an arbitrary
  list of coordinates instead of \<^verbatim>\<open>range(h)\<close> times \<^verbatim>\<open>range(w)\<close>: the scan in any order.
\<close>

fun scan_coords :: "pixel \<Rightarrow> (nat \<times> nat) list \<Rightarrow> image \<Rightarrow> error + image" where
  "scan_coords bg [] img = Inr img"
| "scan_coords bg ((x, y) # cs) img =
     (case pixels_get img x y of
        Inl e \<Rightarrow> Inl e
      | Inr (r, g, b, a) \<Rightarrow>
          if (r, g, b) = (red bg, green bg, blue bg)
          then (case pixels_set img x y (r, g, b, 0) of
                  Inl e \<Rightarrow> Inl e
                | Inr img' \<Rightarrow> scan_coords bg cs img')
          else scan_coords bg cs img)"

definition colorkey_in_order :: "(nat \<times> nat) list \<Rightarrow> image \<Rightarrow> error + image" where
  "colorkey_in_order cs img =
     (case pixels_get img 0 0 of
        Inl e \<Rightarrow> Inl e
      | Inr bg \<Rightarrow> scan_coords bg cs img)"

text \<open>
  The coordinates in the order in which the nested loops of the source reach them.
\<close>

definition row_major :: "nat \<Rightarrow> nat \<Rightarrow> (nat \<times> nat) list" where
  "row_major w h = concat (map (\<lambda>y. map (\<lambda>x. (x, y)) [0..<w]) [0..<h])"

text \<open>
  A two by two sprite whose top-left colour \<open>(152, 0, 136)\<close> occurs twice: the concrete
  input at which the theorems about the extraction are instantiated.
\<close>

definition sprite_2x2 :: image where
  "sprite_2x2 = \<lparr>size_w = 2, size_h = 2,
     data = [(152, 0, 136, 255), (1, 2, 3, 255), (152, 0, 136, 255), (4, 5, 6, 255)]\<rparr>"

section \<open>Paths, files and the console\<close>

text \<open>
  \<^verbatim>\<open>os.path.join(a, *p)\<close> of \<^verbatim>\<open>posixpath\<close>: a component that starts with the separator
  replaces what was joined so far; otherwise it is appended, after a separator unless
  the path so far is empty or already ends with one.
\<close>

definition join_step :: "string \<Rightarrow> string \<Rightarrow> string" where
  "join_step path b =
     (if b \<noteq> [] \<and> hd b = CHR ''/'' then b
      else if path = [] \<or> last path = CHR ''/'' then path @ b
      else path @ ''/'' @ b)"

definition path_join :: "string \<Rightarrow> string list \<Rightarrow> string" where
  "path_join a p = foldl join_step a p"

definition SRC :: string where
  "SRC = ''/tmp/wolf3d-assets''"

text \<open>
  \<^verbatim>\<open>DST\<close> is computed from the directory of the script file,
  \<^verbatim>\<open>os.path.dirname(os.path.abspath(__file__))\<close>, which is the parameter \<open>script_dir\<close>.
\<close>

definition DST :: "string \<Rightarrow> string" where
  "DST script_dir = path_join script_dir [''..'', ''public'', ''assets'']"

text \<open>
  \<^verbatim>\<open>WALL_MAP\<close> is a dictionary with ten distinct keys; \<^verbatim>\<open>.items()\<close> iterates in insertion
  order, so the list of its pairs in the order of the source is the same data.
  \<^verbatim>\<open>ENEMIES\<close> is a list of triples; \<^verbatim>\<open>list("ABC")\<close> is the list of the one-letter
  strings of its argument, modelled as the list of its characters.
\<close>

definition WALL_MAP :: "(string \<times> string) list" where
  "WALL_MAP =
    [(''greybrick1.bmp'', ''wall_0.png''),
     (''bluestone1.BMP'', ''wall_1.png''),
     (''wood1.BMP'', ''wall_2.png''),
     (''stone1.BMP'', ''wall_3.png''),
     (''bluestone3.BMP'', ''wall_4.png''),
     (''wood3.BMP'', ''wall_5.png''),
     (''greybrick5.bmp'', ''wall_6.png''),
     (''brick1.BMP'', ''wall_7.png''),
     (''door1.BMP'', ''door_0.png''),
     (''elevator1.BMP'', ''door_1.png'')]"

definition ENEMIES :: "(string \<times> string \<times> char list) list" where
  "ENEMIES =
    [(''GARD'', ''guard'', ''ABCDEFGHIJKLMN''),
     (''OFFI'', ''officer'', ''ABCDEFGHIJKLMNO''),
     (''NZSS'', ''ss'', ''ABCDEFGHIJKLMN''),
     (''MTNT'', ''mutant'', ''ABCDEFGHIJKLMNOP'')]"

text \<open>
  A source file holds a raster in the mode the file was stored in, with or without an
  alpha channel, or something that no decoder accepts. A file the converter wrote
  holds the RGBA image that was saved.
\<close>

record raster =
  r_w :: nat
  r_h :: nat
  r_rgb :: "(channel \<times> channel \<times> channel) list"
  r_alpha :: "channel list option"

datatype content = Bitmap raster | Png image | Junk

text \<open>
  Modelled from the spec: the conversion to four channels that \<^verbatim>\<open>.convert("RGBA")\<close>
  performs is code of the imaging library, not of this repository. The specification
  says of it: "reinterpret/convert it to 4-channel RGBA (if the source has no alpha
  channel, synthesize a fully-opaque alpha of 255 for every pixel)"; the size and the
  colours are those of the decoded source.
\<close>

definition convert_RGBA :: "raster \<Rightarrow> image" where
  "convert_RGBA s =
     \<lparr>size_w = r_w s, size_h = r_h s,
      data = (case r_alpha s of
                None \<Rightarrow> map (\<lambda>(r, g, b). (r, g, b, 255)) (r_rgb s)
              | Some al \<Rightarrow> map (\<lambda>((r, g, b), a). (r, g, b, a)) (zip (r_rgb s) al))\<rparr>"

text \<open>
  The world the program runs in: the regular files by path, the directories, and the
  lines printed so far. Paths are compared as the strings the program builds; two
  different strings that the operating system would resolve to one file are two
  paths here.
\<close>

record world =
  files :: "string \<Rightarrow> content option"
  dirs :: "string set"
  console :: "string list"

definition py_print :: "string \<Rightarrow> world \<Rightarrow> world" where
  "py_print s w = w\<lparr>console := console w @ [s]\<rparr>"

text \<open>
  \<^verbatim>\<open>posixpath.split\<close>: the tail is what follows the last separator and the head what
  comes before it, with the separators at its end removed unless the head consists of
  separators only.
\<close>

definition all_sep :: "string \<Rightarrow> bool" where
  "all_sep p \<longleftrightarrow> set p \<subseteq> {CHR ''/''}"

definition path_split :: "string \<Rightarrow> string \<times> string" where
  "path_split p =
     (let tail = rev (takeWhile (\<lambda>c. c \<noteq> CHR ''/'') (rev p));
          head = rev (dropWhile (\<lambda>c. c \<noteq> CHR ''/'') (rev p))
      in (if head \<noteq> [] \<and> \<not> all_sep head
          then rev (dropWhile (\<lambda>c. c = CHR ''/'') (rev head))
          else head,
          tail))"

text \<open>
  \<^verbatim>\<open>os.path.isdir\<close> and \<^verbatim>\<open>os.path.exists\<close>. The root always is a directory, and the
  parent entry \<^verbatim>\<open>x/..\<close> is one exactly when \<^verbatim>\<open>x\<close> is: the destination root of the
  program goes through such an entry.
\<close>

function isdir :: "world \<Rightarrow> string \<Rightarrow> bool" where
  "isdir w p =
     (if (p \<noteq> [] \<and> all_sep p) \<or> p \<in> dirs w then True
      else if snd (path_split p) = ''..''
           then (if fst (path_split p) = [] then True else isdir w (fst (path_split p)))
           else False)"
  by pat_completeness auto
termination
proof (relation "measure (\<lambda>(w, p). length p)")
  show "wf (measure (\<lambda>(w, p). length p))" by simp
next
  fix w :: world and p :: string
  assume t: "snd (path_split p) = ''..''"
  let ?h = "rev (dropWhile (\<lambda>c. c \<noteq> CHR ''/'') (rev p))"
  have "length ?h + length (snd (path_split p)) = length p"
    using takeWhile_dropWhile_id [of "\<lambda>c. c \<noteq> CHR ''/''" "rev p"]
    by (metis (no_types, lifting) add.commute length_append length_rev path_split_def snd_conv)
  moreover have "length (fst (path_split p)) \<le> length ?h"
    by (simp add: path_split_def Let_def length_dropWhile_le)
  ultimately have "length (fst (path_split p)) < length p"
    using t by simp
  then show "((w, fst (path_split p)), (w, p)) \<in> measure (\<lambda>(w, p). length p)"
    by simp
qed

declare isdir.simps [simp del]

definition exists_path :: "world \<Rightarrow> string \<Rightarrow> bool" where
  "exists_path w p \<longleftrightarrow> files w p \<noteq> None \<or> isdir w p"

text \<open>
  \<^verbatim>\<open>os.mkdir\<close> creates one directory. It raises when the path exists already, when the
  directory that is to hold it does not exist, and when that one is a regular file.
  A path with an empty head is relative to the working directory, which exists.
\<close>

definition mkdir :: "string \<Rightarrow> world \<Rightarrow> (error + unit) \<times> world" where
  "mkdir name w =
     (if name = [] then (Inl FileNotFoundError, w)
      else if exists_path w name then (Inl FileExistsError, w)
      else if fst (path_split name) = [] \<or> isdir w (fst (path_split name))
      then (Inr (), w\<lparr>dirs := insert name (dirs w)\<rparr>)
      else if files w (fst (path_split name)) \<noteq> None then (Inl NotADirectoryError, w)
      else (Inl FileNotFoundError, w))"

text \<open>
  \<^verbatim>\<open>os.makedirs(name, exist_ok=True)\<close>, after its source in the standard library:
  \<^verbatim>\<open>
    head, tail = path.split(name)
    if not tail:
        head, tail = path.split(head)
    if head and tail and not path.exists(head):
        try:
            makedirs(head, exist_ok=exist_ok)
        except FileExistsError:
            pass
        if tail == curdir:
            return
    try:
        mkdir(name, mode)
    except OSError:
        if not exist_ok or not path.isdir(name):
            raise
  \<close>
  \<open>makedirs_split\<close> is the first three lines and \<open>mkdir_exist_ok\<close> the last five.
\<close>

definition makedirs_split :: "string \<Rightarrow> string \<times> string" where
  "makedirs_split name =
     (if snd (path_split name) = [] then path_split (fst (path_split name))
      else path_split name)"

definition mkdir_exist_ok :: "string \<Rightarrow> world \<Rightarrow> (error + unit) \<times> world" where
  "mkdir_exist_ok name w =
     (case mkdir name w of
        (Inl e, w') \<Rightarrow> if isdir w' name then (Inr (), w') else (Inl e, w')
      | (Inr u, w') \<Rightarrow> (Inr u, w'))"

function makedirs :: "string \<Rightarrow> world \<Rightarrow> (error + unit) \<times> world" where
  "makedirs name w =
     (if fst (makedirs_split name) \<noteq> [] \<and> snd (makedirs_split name) \<noteq> [] \<and>
         \<not> exists_path w (fst (makedirs_split name))
      then (case makedirs (fst (makedirs_split name)) w of
              (Inl e, w1) \<Rightarrow>
                if e = FileExistsError
                then (if snd (makedirs_split name) = ''.'' then (Inr (), w1)
                      else mkdir_exist_ok name w1)
                else (Inl e, w1)
            | (Inr u, w1) \<Rightarrow>
                if snd (makedirs_split name) = ''.'' then (Inr (), w1)
                else mkdir_exist_ok name w1)
      else mkdir_exist_ok name w)"
  by pat_completeness auto
termination
proof (relation "measure (\<lambda>(name, w). length name)")
  show "wf (measure (\<lambda>(name, w). length name))" by simp
next
  fix name :: string and w :: world
  assume t: "fst (makedirs_split name) \<noteq> [] \<and> snd (makedirs_split name) \<noteq> [] \<and>
         \<not> exists_path w (fst (makedirs_split name))"
  have sp: "length (fst (path_split p)) + length (snd (path_split p)) \<le> length p" for p
  proof -
    let ?h = "rev (dropWhile (\<lambda>c. c \<noteq> CHR ''/'') (rev p))"
    have "length ?h + length (snd (path_split p)) = length p"
      using takeWhile_dropWhile_id [of "\<lambda>c. c \<noteq> CHR ''/''" "rev p"]
      by (metis (no_types, lifting) add.commute length_append length_rev path_split_def snd_conv)
    moreover have "length (fst (path_split p)) \<le> length ?h"
      by (simp add: path_split_def Let_def length_dropWhile_le)
    ultimately show ?thesis by simp
  qed
  have "length (fst (makedirs_split name)) + length (snd (makedirs_split name)) \<le> length name"
    using sp [of name] sp [of "fst (path_split name)"] by (simp add: makedirs_split_def)
  then have "length (fst (makedirs_split name)) < length name"
    using t by (cases "snd (makedirs_split name)") simp_all
  then show "((fst (makedirs_split name), w), (name, w)) \<in> measure (\<lambda>(name, w). length name)"
    by simp
qed

declare makedirs.simps [simp del]

definition ensure_dir :: "string \<Rightarrow> world \<Rightarrow> (error + unit) \<times> world" where
  "ensure_dir path w = makedirs path w"

text \<open>
  \<^verbatim>\<open>Image.open(path).convert("RGBA")\<close>: a directory or a missing path cannot be opened,
  and a file that is no image is refused by the decoder.
\<close>

definition open_RGBA :: "world \<Rightarrow> string \<Rightarrow> error + image" where
  "open_RGBA w path =
     (case files w path of
        None \<Rightarrow> if isdir w path then Inl IsADirectoryError else Inl FileNotFoundError
      | Some (Bitmap s) \<Rightarrow> Inr (convert_RGBA s)
      | Some (Png img) \<Rightarrow> Inr img
      | Some Junk \<Rightarrow> Inl UnidentifiedImageError)"

text \<open>
  \<^verbatim>\<open>img.save(path, "PNG")\<close> opens the path for writing and so creates or overwrites
  the file there. A directory cannot be opened for writing, and the directory that is
  to hold the file has to exist: otherwise the open raises \<^verbatim>\<open>FileNotFoundError\<close>, or
  \<^verbatim>\<open>NotADirectoryError\<close> when a regular file is in its place. Failures that the state
  of the world does not determine (permissions, a full disk) are not modelled.
\<close>

definition save_PNG :: "image \<Rightarrow> string \<Rightarrow> world \<Rightarrow> (error + unit) \<times> world" where
  "save_PNG img path w =
     (if isdir w path then (Inl IsADirectoryError, w)
      else if fst (path_split path) = [] \<or> isdir w (fst (path_split path))
      then (Inr (), w\<lparr>files := (files w)(path \<mapsto> Png img)\<rparr>)
      else if files w (fst (path_split path)) \<noteq> None then (Inl NotADirectoryError, w)
      else (Inl FileNotFoundError, w))"

text \<open>
  The decimal digits of a count, as an f-string prints it.
\<close>

function str_nat :: "nat \<Rightarrow> string" where
  "str_nat n =
     (if n < 10 then [''0123456789'' ! n]
      else str_nat (n div 10) @ [''0123456789'' ! (n mod 10)])"
  by pat_completeness auto
termination
  by (relation "measure id") auto

declare str_nat.simps [simp del]

section \<open>The converters\<close>

definition wall_src_path :: "string \<Rightarrow> string" where
  "wall_src_path src_file = path_join SRC [''w3d_textures_fix'', src_file]"

definition wall_dst_path :: "string \<Rightarrow> string \<Rightarrow> string" where
  "wall_dst_path script_dir dst_file = path_join (DST script_dir) [''walls'', dst_file]"

text \<open>
  The result of a call is the value returned or the exception raised, together with
  the world as the call leaves it: what was printed or written before an exception
  stays.
\<close>

definition convert_wall :: "string \<Rightarrow> string \<Rightarrow> string \<Rightarrow> world \<Rightarrow> (error + bool) \<times> world" where
  "convert_wall script_dir src_file dst_file w =
     (let src_path = wall_src_path src_file;
          dst_path = wall_dst_path script_dir dst_file
      in if \<not> exists_path w src_path
         then (Inr False, py_print (''  SKIP (not found): '' @ src_path) w)
         else (case open_RGBA w src_path of
                 Inl e \<Rightarrow> (Inl e, w)
               | Inr img \<Rightarrow>
                   (case save_PNG img dst_path w of
                      (Inl e, w') \<Rightarrow> (Inl e, w')
                    | (Inr _, w') \<Rightarrow>
                        (Inr True, py_print (''  OK '' @ src_file @ '' -> '' @ dst_file) w'))))"

definition convert_enemy :: "string \<Rightarrow> string \<Rightarrow> world \<Rightarrow> (error + bool) \<times> world" where
  "convert_enemy src_path dst_path w =
     (if \<not> exists_path w src_path
      then (Inr False, py_print (''  SKIP (not found): '' @ src_path) w)
      else (case open_RGBA w src_path of
              Inl e \<Rightarrow> (Inl e, w)
            | Inr img \<Rightarrow>
                (case colorkey img of
                   Inl e \<Rightarrow> (Inl e, w)
                 | Inr img' \<Rightarrow>
                     (case save_PNG img' dst_path w of
                        (Inl e, w') \<Rightarrow> (Inl e, w')
                      | (Inr _, w') \<Rightarrow> (Inr True, w')))))"

section \<open>The names of the enemy files\<close>

text \<open>
  \<^verbatim>\<open>frame <= "E"\<close> compares two one-letter strings, that is their code points.
  \<^verbatim>\<open>frame.lower()\<close> is modelled on the ASCII letters, which is what the frame lists
  hold.
\<close>

definition is_walking :: "char \<Rightarrow> bool" where
  "is_walking frame \<longleftrightarrow> (of_char frame :: nat) \<le> of_char (CHR ''E'')"

definition rotation :: "char \<Rightarrow> string" where
  "rotation frame = (if is_walking frame then ''1'' else ''0'')"

definition lower :: "char \<Rightarrow> char" where
  "lower c =
     (case map_of (zip ''ABCDEFGHIJKLMNOPQRSTUVWXYZ'' ''abcdefghijklmnopqrstuvwxyz'') c of
        None \<Rightarrow> c
      | Some l \<Rightarrow> l)"

definition enemy_src_file :: "string \<Rightarrow> char \<Rightarrow> string" where
  "enemy_src_file prefix frame = prefix @ [frame] @ rotation frame @ ''.bmp''"

definition enemy_dst_file :: "char \<Rightarrow> string" where
  "enemy_dst_file frame = [lower frame] @ ''.png''"

definition enemy_src_path :: "string \<Rightarrow> char \<Rightarrow> string" where
  "enemy_src_path prefix frame = path_join SRC [''w3d_enemies_fix'', enemy_src_file prefix frame]"

definition enemy_dst_path :: "string \<Rightarrow> char \<Rightarrow> string" where
  "enemy_dst_path out_dir frame = path_join out_dir [enemy_dst_file frame]"

definition enemy_out_dir :: "string \<Rightarrow> string \<Rightarrow> string" where
  "enemy_out_dir script_dir dirname = path_join (DST script_dir) [''enemies'', dirname]"

section \<open>\<^verbatim>\<open>main\<close>\<close>

text \<open>
  The loop over \<^verbatim>\<open>WALL_MAP.items()\<close> with its counter, the loop over the frames of one
  category and the loop over \<^verbatim>\<open>ENEMIES\<close>. An exception raised by a conversion or by
  \<^verbatim>\<open>ensure_dir\<close> is not caught anywhere, so it ends the loop and the run.
\<close>

fun wall_loop ::
  "string \<Rightarrow> (string \<times> string) list \<Rightarrow> nat \<Rightarrow> world \<Rightarrow> (error + nat) \<times> world" where
  "wall_loop script_dir [] wall_count w = (Inr wall_count, w)"
| "wall_loop script_dir ((src_file, dst_file) # rest) wall_count w =
     (case convert_wall script_dir src_file dst_file w of
        (Inl e, w') \<Rightarrow> (Inl e, w')
      | (Inr ok, w') \<Rightarrow>
          wall_loop script_dir rest (if ok then wall_count + 1 else wall_count) w')"

fun frame_loop ::
  "string \<Rightarrow> string \<Rightarrow> char list \<Rightarrow> nat \<Rightarrow> world \<Rightarrow> (error + nat) \<times> world" where
  "frame_loop prefix out_dir [] enemy_count w = (Inr enemy_count, w)"
| "frame_loop prefix out_dir (frame # frames) enemy_count w =
     (case convert_enemy (enemy_src_path prefix frame) (enemy_dst_path out_dir frame) w of
        (Inl e, w') \<Rightarrow> (Inl e, w')
      | (Inr ok, w') \<Rightarrow>
          frame_loop prefix out_dir frames (if ok then enemy_count + 1 else enemy_count) w')"

fun enemy_loop ::
  "string \<Rightarrow> (string \<times> string \<times> char list) list \<Rightarrow> nat \<Rightarrow> world \<Rightarrow> (error + nat) \<times> world"
  where
  "enemy_loop script_dir [] enemy_count w = (Inr enemy_count, w)"
| "enemy_loop script_dir ((prefix, dirname, frames) # rest) enemy_count w =
     (let out_dir = enemy_out_dir script_dir dirname
      in case ensure_dir out_dir w of
           (Inl e, w1) \<Rightarrow> (Inl e, w1)
         | (Inr _, w1) \<Rightarrow>
             (case frame_loop prefix out_dir frames enemy_count w1 of
                (Inl e, w2) \<Rightarrow> (Inl e, w2)
              | (Inr enemy_count', w2) \<Rightarrow>
                  enemy_loop script_dir rest enemy_count'
                    (py_print (''  OK '' @ prefix @ '': '' @ str_nat (length frames) @
                               '' frames -> '' @ dirname @ ''/'') w2)))"

text \<open>
  The walls part of \<^verbatim>\<open>main\<close> (lines 74 to 80) and its enemies part (lines 83 to 100),
  each returning its counter, and \<^verbatim>\<open>main\<close>, which prints the banner, runs both and
  prints the last line with the two counts.
\<close>

definition walls_dir :: "string \<Rightarrow> string" where
  "walls_dir script_dir = path_join (DST script_dir) [''walls'']"

definition main_walls :: "string \<Rightarrow> world \<Rightarrow> (error + nat) \<times> world" where
  "main_walls script_dir w =
     (case ensure_dir (walls_dir script_dir) (py_print ''Converting wall textures...'' w) of
        (Inl e, w1) \<Rightarrow> (Inl e, w1)
      | (Inr _, w1) \<Rightarrow>
          (case wall_loop script_dir WALL_MAP 0 w1 of
             (Inl e, w2) \<Rightarrow> (Inl e, w2)
           | (Inr wall_count, w2) \<Rightarrow>
               (Inr wall_count,
                py_print (''  '' @ str_nat wall_count @ '' wall textures converted.'' @ [CHR 0x0A])
                  w2)))"

definition main_enemies :: "string \<Rightarrow> world \<Rightarrow> (error + nat) \<times> world" where
  "main_enemies script_dir w =
     (case enemy_loop script_dir ENEMIES 0 (py_print ''Converting enemy sprites...'' w) of
        (Inl e, w1) \<Rightarrow> (Inl e, w1)
      | (Inr enemy_count, w1) \<Rightarrow>
          (Inr enemy_count,
           py_print (''  '' @ str_nat enemy_count @ '' enemy sprites converted.'' @ [CHR 0x0A])
             w1))"

definition done_line :: "nat \<Rightarrow> nat \<Rightarrow> string" where
  "done_line wall_count enemy_count =
     ''=== Done: '' @ str_nat wall_count @ '' walls, '' @ str_nat enemy_count @ '' enemies ===''"

definition main :: "string \<Rightarrow> world \<Rightarrow> (error + unit) \<times> world" where
  "main script_dir w =
     (case main_walls script_dir
             (py_print (''=== Wolf3D BMP -> PNG Converter ==='' @ [CHR 0x0A]) w) of
        (Inl e, w1) \<Rightarrow> (Inl e, w1)
      | (Inr wall_count, w1) \<Rightarrow>
          (case main_enemies script_dir w1 of
             (Inl e, w2) \<Rightarrow> (Inl e, w2)
           | (Inr enemy_count, w2) \<Rightarrow>
               (Inr (), py_print (done_line wall_count enemy_count) w2)))"

section \<open>Concrete worlds\<close>

text \<open>
  The script directory and the worlds used to run the program on concrete inputs.
  \<open>empty_world\<close> has no file and no directory but the root. In \<open>bare_world\<close> the
  script directory exists and nothing else: the source root is absent. In
  \<open>small_world\<close> the source directories exist as well, the first wall source is a
  one by two bitmap without alpha and the first guard frame is the two by two
  sprite. \<open>junk_world\<close> is the same with a first wall source that is not an image
  and no guard frame. \<open>walls_world\<close> is \<open>small_world\<close> after the destination
  directory of the walls has been created.
\<close>

definition repo_scripts :: string where
  "repo_scripts = ''/repo/scripts''"

definition empty_world :: world where
  "empty_world = \<lparr>files = Map.empty, dirs = {}, console = []\<rparr>"

definition bare_world :: world where
  "bare_world = \<lparr>files = Map.empty, dirs = {''/repo'', ''/repo/scripts''}, console = []\<rparr>"

definition grey_1x2 :: raster where
  "grey_1x2 = \<lparr>r_w = 1, r_h = 2, r_rgb = [(112, 112, 112), (96, 96, 96)], r_alpha = None\<rparr>"

definition guard_2x2 :: raster where
  "guard_2x2 =
     \<lparr>r_w = 2, r_h = 2, r_rgb = [(152, 0, 136), (1, 2, 3), (152, 0, 136), (4, 5, 6)],
      r_alpha = None\<rparr>"

definition source_dirs :: "string set" where
  "source_dirs =
     {''/repo'', ''/repo/scripts'', ''/tmp'', ''/tmp/wolf3d-assets'',
      ''/tmp/wolf3d-assets/w3d_textures_fix'', ''/tmp/wolf3d-assets/w3d_enemies_fix''}"

definition small_world :: world where
  "small_world =
     \<lparr>files = [''/tmp/wolf3d-assets/w3d_textures_fix/greybrick1.bmp'' \<mapsto> Bitmap grey_1x2,
               ''/tmp/wolf3d-assets/w3d_enemies_fix/GARDA1.bmp'' \<mapsto> Bitmap guard_2x2],
      dirs = source_dirs, console = []\<rparr>"

definition junk_world :: world where
  "junk_world =
     \<lparr>files = [''/tmp/wolf3d-assets/w3d_textures_fix/greybrick1.bmp'' \<mapsto> Junk],
      dirs = source_dirs, console = []\<rparr>"

definition walls_world :: world where
  "walls_world =
     small_world\<lparr>dirs := source_dirs \<union>
       {''/repo/scripts/../public'', ''/repo/scripts/../public/assets'',
        ''/repo/scripts/../public/assets/walls''}\<rparr>"

section \<open>What a run leaves unchanged\<close>

text \<open>
  Every source path of the program ends in \<^verbatim>\<open>.bmp\<close> or \<^verbatim>\<open>.BMP\<close>, and no file that the
  program writes does: \<open>bmp_name\<close> tells the two kinds apart by the last character.
  \<open>later w w'\<close> holds when \<open>w'\<close> can follow \<open>w\<close> in a run: the paths with such a name hold
  the same file, or none, in both, and no directory and no file has gone.
\<close>

definition bmp_name :: "string \<Rightarrow> bool" where
  "bmp_name p \<longleftrightarrow> p \<noteq> [] \<and> (last p = CHR ''p'' \<or> last p = CHR ''P'')"

definition later :: "world \<Rightarrow> world \<Rightarrow> bool" where
  "later w w' \<longleftrightarrow>
     (\<forall>p. bmp_name p \<longrightarrow> files w' p = files w p) \<and>
     dirs w \<subseteq> dirs w' \<and>
     (\<forall>p. files w p \<noteq> None \<longrightarrow> files w' p \<noteq> None)"

text \<open>
  A name of one path component that is neither of the entries \<^verbatim>\<open>.\<close> and \<^verbatim>\<open>..\<close>, as the
  names of the output directories and of the destination files are.
\<close>

definition plain_name :: "string \<Rightarrow> bool" where
  "plain_name b \<longleftrightarrow> b \<noteq> [] \<and> CHR ''/'' \<notin> set b \<and> b \<noteq> ''.'' \<and> b \<noteq> ''..''"

text \<open>
  A decoded source holds one colour for every coordinate of its size, and one alpha
  value for each when it has an alpha channel.
\<close>

definition wf_raster :: "raster \<Rightarrow> bool" where
  "wf_raster s \<longleftrightarrow>
     length (r_rgb s) = r_w s * r_h s \<and>
     (case r_alpha s of None \<Rightarrow> True | Some al \<Rightarrow> length al = length (r_rgb s))"

text \<open>
  The number of wall entries and of enemy frames whose source path exists in a world.
\<close>

definition walls_present :: "world \<Rightarrow> (string \<times> string) list \<Rightarrow> nat" where
  "walls_present w items =
     length (filter (\<lambda>(src_file, dst_file). exists_path w (wall_src_path src_file)) items)"

definition frames_present :: "world \<Rightarrow> string \<Rightarrow> char list \<Rightarrow> nat" where
  "frames_present w prefix frames =
     length (filter (\<lambda>frame. exists_path w (enemy_src_path prefix frame)) frames)"

definition enemies_present :: "world \<Rightarrow> (string \<times> string \<times> char list) list \<Rightarrow> nat" where
  "enemies_present w cats =
     sum_list (map (\<lambda>(prefix, dirname, frames). frames_present w prefix frames) cats)"

section \<open>The pixel loop computes the per-pixel map\<close>

lemma idx_lt: "x < w \<Longrightarrow> y < h \<Longrightarrow> y * w + x < w * (h::nat)"
proof -
  assume a: "x < w" "y < h"
  then have "y * w + x < y * w + w" by simp
  also have "\<dots> = (Suc y) * w" by simp
  also have "\<dots> \<le> h * w" using a(2) by (intro mult_le_mono1) simp
  finally show ?thesis by (simp add: mult.commute)
qed

lemma key_out_idem: "key_out bg (key_out bg p) = key_out bg p"
  by (simp add: key_out_def red_def green_def blue_def)

lemma scan_step:
  assumes "x < size_w img" "y < size_h img"
  shows "scan_coords bg ((x, y) # cs) img =
         scan_coords bg cs (img\<lparr>data := (data img)[y * size_w img + x := key_out bg (data img ! (y * size_w img + x))]\<rparr>)"
proof -
  let ?i = "y * size_w img + x"
  obtain r g b a where p: "data img ! ?i = (r, g, b, a)"
    by (cases "data img ! ?i")
  have same: "img\<lparr>data := (data img)[?i := (r, g, b, a)]\<rparr> = img"
    using list_update_id [of "data img" ?i] p by simp
  show ?thesis
    using assms p same
    by (simp add: pixels_get_def pixels_set_def key_out_def red_def green_def blue_def)
qed

lemma scan_coords_data:
  "\<forall>c\<in>set cs. fst c < size_w img \<and> snd c < size_h img \<Longrightarrow>
   \<exists>d. scan_coords bg cs img = Inr (img\<lparr>data := d\<rparr>) \<and> length d = length (data img) \<and>
       (\<forall>j<length d. d ! j =
          (if j \<in> (\<lambda>c. snd c * size_w img + fst c) ` set cs
           then key_out bg (data img ! j) else data img ! j))"
proof (induction cs arbitrary: img)
  case Nil
  show ?case by (rule exI [of _ "data img"]) simp
next
  case (Cons c cs)
  obtain x y where c: "c = (x, y)" by (cases c)
  let ?i = "y * size_w img + x"
  let ?img1 = "img\<lparr>data := (data img)[?i := key_out bg (data img ! ?i)]\<rparr>"
  from Cons.prems c have b: "x < size_w img" "y < size_h img" by auto
  have step: "scan_coords bg (c # cs) img = scan_coords bg cs ?img1"
    unfolding c using b by (rule scan_step)
  have "\<forall>c\<in>set cs. fst c < size_w ?img1 \<and> snd c < size_h ?img1"
    using Cons.prems by simp
  from Cons.IH [OF this] obtain d where
    d: "scan_coords bg cs ?img1 = Inr (?img1\<lparr>data := d\<rparr>)"
       "length d = length (data ?img1)"
       "\<forall>j<length d. d ! j =
          (if j \<in> (\<lambda>c. snd c * size_w ?img1 + fst c) ` set cs
           then key_out bg (data ?img1 ! j) else data ?img1 ! j)"
    by blast
  have "scan_coords bg (c # cs) img = Inr (img\<lparr>data := d\<rparr>)"
    using step d(1) by simp
  moreover have "length d = length (data img)" using d(2) by simp
  moreover have "\<forall>j<length d. d ! j =
          (if j \<in> (\<lambda>c. snd c * size_w img + fst c) ` set (c # cs)
           then key_out bg (data img ! j) else data img ! j)"
  proof (intro allI impI)
    fix j assume j: "j < length d"
    then have jl: "j < length (data img)" using d(2) by simp
    have dj: "d ! j = (if j \<in> (\<lambda>c. snd c * size_w img + fst c) ` set cs
           then key_out bg (data ?img1 ! j) else data ?img1 ! j)"
      using d(3) j by simp
    show "d ! j = (if j \<in> (\<lambda>c. snd c * size_w img + fst c) ` set (c # cs)
           then key_out bg (data img ! j) else data img ! j)"
    proof (cases "j = ?i")
      case True
      then show ?thesis using dj jl c by (simp add: key_out_idem)
    next
      case False
      then show ?thesis using dj jl c by auto
    qed
  qed
  ultimately show ?case by blast
qed


lemma scan_row_coords: "scan_row bg y xs img = scan_coords bg (map (\<lambda>x. (x, y)) xs) img"
  by (induction xs arbitrary: img) (auto split: sum.splits prod.splits)

lemma scan_coords_append:
  "scan_coords bg (cs @ ds) img =
     (case scan_coords bg cs img of Inl e \<Rightarrow> Inl e | Inr img' \<Rightarrow> scan_coords bg ds img')"
proof (induction cs arbitrary: img)
  case Nil
  show ?case by simp
next
  case (Cons c cs)
  obtain x y where c: "c = (x, y)" by (cases c)
  show ?case unfolding c by (simp add: Cons.IH split: sum.splits prod.splits)
qed

lemma scan_rows_coords:
  "scan_rows bg w ys img = scan_coords bg (concat (map (\<lambda>y. map (\<lambda>x. (x, y)) [0..<w]) ys)) img"
  by (induction ys arbitrary: img)
     (simp_all add: scan_row_coords scan_coords_append split: sum.splits)

lemma colorkey_row_major:
  "colorkey img = colorkey_in_order (row_major (size_w img) (size_h img)) img"
  by (simp add: colorkey_def colorkey_in_order_def row_major_def scan_rows_coords
      split: sum.splits)

lemma set_row_major: "set (row_major w h) = {(x, y). x < w \<and> y < h}"
  by (auto simp: row_major_def)

lemma distinct_row_major: "distinct (row_major w h)"
proof (induction h)
  case 0
  show ?case by (simp add: row_major_def)
next
  case (Suc h)
  have "row_major w (Suc h) = row_major w h @ map (\<lambda>x. (x, h)) [0..<w]"
    by (simp add: row_major_def)
  moreover have "distinct (map (\<lambda>x. (x, h)) [0..<w])"
    by (simp add: distinct_map inj_on_def)
  moreover have "set (row_major w h) \<inter> set (map (\<lambda>x. (x, h)) [0..<w]) = {}"
    by (auto simp: row_major_def)
  ultimately show ?case using Suc.IH by simp
qed

lemma index_covered:
  assumes "j < w * h"
  shows "j \<in> (\<lambda>c. snd c * w + fst c) ` {(x, y). x < w \<and> y < (h::nat)}"
proof -
  from assms have w: "0 < w" by (cases w) simp_all
  have "j mod w < w" using w by simp
  moreover have "j div w < h" using assms by (simp add: less_mult_imp_div_less mult.commute)
  moreover have "j = (j div w) * w + j mod w" by simp
  ultimately show ?thesis by (intro image_eqI [of _ _ "(j mod w, j div w)"]) simp_all
qed

lemma colorkey_in_order_map:
  assumes wf: "wf_image img" and w: "0 < size_w img" and h: "0 < size_h img"
    and cs: "set cs = {(x, y). x < size_w img \<and> y < size_h img}"
  shows "colorkey_in_order cs img = Inr (colorkey_map img)"
proof -
  let ?bg = "data img ! 0"
  have bg: "pixels_get img 0 0 = Inr ?bg"
    using w h by (simp add: pixels_get_def)
  have "\<forall>c\<in>set cs. fst c < size_w img \<and> snd c < size_h img"
    using cs by auto
  from scan_coords_data [OF this, of ?bg] obtain d where
    d: "scan_coords ?bg cs img = Inr (img\<lparr>data := d\<rparr>)"
       "length d = length (data img)"
       "\<forall>j<length d. d ! j =
          (if j \<in> (\<lambda>c. snd c * size_w img + fst c) ` set cs
           then key_out ?bg (data img ! j) else data img ! j)"
    by blast
  have "d = map (key_out ?bg) (data img)"
  proof (rule nth_equalityI)
    show "length d = length (map (key_out ?bg) (data img))" using d(2) by simp
  next
    fix j assume j: "j < length d"
    then have "j < size_w img * size_h img" using d(2) wf by (simp add: wf_image_def)
    then have "j \<in> (\<lambda>c. snd c * size_w img + fst c) ` set cs"
      unfolding cs by (rule index_covered)
    then show "d ! j = map (key_out ?bg) (data img) ! j"
      using d(2,3) j by simp
  qed
  then show ?thesis
    using bg d(1) by (simp add: colorkey_in_order_def colorkey_map_def)
qed

lemma colorkey_eq_map:
  assumes "wf_image img" "0 < size_w img" "0 < size_h img"
  shows "colorkey img = Inr (colorkey_map img)"
  unfolding colorkey_row_major
  using assms by (rule colorkey_in_order_map) (rule set_row_major)

lemma colorkey_empty:
  assumes "size_w img = 0 \<or> size_h img = 0"
  shows "colorkey img = Inl IndexError"
  using assms by (auto simp: colorkey_def pixels_get_def)

lemma colorkey_map_get:
  assumes "wf_image img" "x < size_w img" "y < size_h img"
  shows "pixels_get (colorkey_map img) x y = Inr (key_out (data img ! 0) (data img ! (y * size_w img + x)))"
proof -
  have "y * size_w img + x < length (data img)"
    using assms idx_lt [of x "size_w img" y "size_h img"] by (simp add: wf_image_def)
  then show ?thesis using assms by (simp add: pixels_get_def colorkey_map_def)
qed

lemma colorkey_map_idem:
  assumes "0 < length (data img)"
  shows "colorkey_map (colorkey_map img) = colorkey_map img"
proof -
  let ?bg = "data img ! 0"
  have k: "key_out (key_out ?bg ?bg) = key_out ?bg"
    by (rule ext) (simp add: key_out_def red_def green_def blue_def)
  have "map (key_out ?bg) (data img) ! 0 = key_out ?bg ?bg"
    using assms by simp
  then show ?thesis
    by (simp add: colorkey_map_def k key_out_idem)
qed

lemma sprite_2x2_ok: "wf_image sprite_2x2" "0 < size_w sprite_2x2" "0 < size_h sprite_2x2"
  by (simp_all add: sprite_2x2_def wf_image_def)

section \<open>Claims about the colorkey extraction\<close>

text \<open>
  Claim C1 (colorkey transparency extraction). For a decoded image with at least one
  pixel, the key colour is the \<open>(r, g, b)\<close> of the pixel that \<^verbatim>\<open>pixels[0, 0]\<close> reads, alpha
  ignored. The extraction returns an image of the same width and height in which every
  pixel whose \<open>(r, g, b)\<close> equals the key has the same \<open>r\<close>, \<open>g\<close>, \<open>b\<close> and alpha 0, and
  every other pixel has all four channels unchanged.
\<close>

theorem colorkey_extraction:
  assumes "wf_image img" "0 < size_w img" "0 < size_h img"
  shows "\<exists>bg img'. pixels_get img 0 0 = Inr bg \<and> colorkey img = Inr img' \<and>
           size_w img' = size_w img \<and> size_h img' = size_h img \<and> wf_image img' \<and>
           (\<forall>x y. x < size_w img \<longrightarrow> y < size_h img \<longrightarrow>
              (\<exists>r g b a. pixels_get img x y = Inr (r, g, b, a) \<and>
                 pixels_get img' x y =
                   Inr (if (r, g, b) = (red bg, green bg, blue bg)
                        then (r, g, b, 0) else (r, g, b, a))))"
proof -
  let ?bg = "data img ! 0"
  have bg: "pixels_get img 0 0 = Inr ?bg"
    using assms by (simp add: pixels_get_def)
  have ck: "colorkey img = Inr (colorkey_map img)"
    using assms by (rule colorkey_eq_map)
  have sz: "size_w (colorkey_map img) = size_w img" "size_h (colorkey_map img) = size_h img"
    "wf_image (colorkey_map img)"
    using assms(1) by (simp_all add: colorkey_map_def wf_image_def)
  have px: "\<exists>r g b a. pixels_get img x y = Inr (r, g, b, a) \<and>
                 pixels_get (colorkey_map img) x y =
                   Inr (if (r, g, b) = (red ?bg, green ?bg, blue ?bg)
                        then (r, g, b, 0) else (r, g, b, a))"
    if "x < size_w img" "y < size_h img" for x y
  proof -
    obtain r g b a where p: "data img ! (y * size_w img + x) = (r, g, b, a)"
      by (cases "data img ! (y * size_w img + x)")
    have "pixels_get img x y = Inr (r, g, b, a)"
      using that p by (simp add: pixels_get_def)
    moreover have "pixels_get (colorkey_map img) x y =
        Inr (if (r, g, b) = (red ?bg, green ?bg, blue ?bg) then (r, g, b, 0) else (r, g, b, a))"
      using colorkey_map_get [OF assms(1) that] p
      by (simp add: key_out_def red_def green_def blue_def)
    ultimately show ?thesis by blast
  qed
  show ?thesis
    using bg ck sz px by blast
qed

theorem colorkey_extraction_witness:
  "wf_image sprite_2x2 \<and> 0 < size_w sprite_2x2 \<and> 0 < size_h sprite_2x2 \<and>
   (\<exists>bg img'. pixels_get sprite_2x2 0 0 = Inr bg \<and> colorkey sprite_2x2 = Inr img' \<and>
           size_w img' = size_w sprite_2x2 \<and> size_h img' = size_h sprite_2x2 \<and> wf_image img' \<and>
           (\<forall>x y. x < size_w sprite_2x2 \<longrightarrow> y < size_h sprite_2x2 \<longrightarrow>
              (\<exists>r g b a. pixels_get sprite_2x2 x y = Inr (r, g, b, a) \<and>
                 pixels_get img' x y =
                   Inr (if (r, g, b) = (red bg, green bg, blue bg)
                        then (r, g, b, 0) else (r, g, b, a)))))"
  using colorkey_extraction [OF sprite_2x2_ok] sprite_2x2_ok by simp

lemma colorkey_sprite_2x2:
  "colorkey sprite_2x2 = Inr \<lparr>size_w = 2, size_h = 2,
     data = [(152, 0, 136, 0), (1, 2, 3, 255), (152, 0, 136, 0), (4, 5, 6, 255)]\<rparr>"
  by (simp add: colorkey_def sprite_2x2_def pixels_get_def pixels_set_def red_def green_def
      blue_def upt_rec)

text \<open>
  Claim C2 (colorkey idempotence). For every decoded image, running the extraction on
  the result of the extraction gives the result of the first run: the same image when
  the first run returns one, and the same \<^verbatim>\<open>IndexError\<close> when the image has no pixel.
\<close>

theorem colorkey_idempotent:
  assumes "wf_image img"
  shows "(case colorkey img of Inl e \<Rightarrow> Inl e | Inr img' \<Rightarrow> colorkey img') = colorkey img"
proof (cases "0 < size_w img \<and> 0 < size_h img")
  case True
  then have nz: "0 < size_w img" "0 < size_h img" by simp_all
  have len: "0 < length (data img)"
    using assms nz by (simp add: wf_image_def)
  have wf': "wf_image (colorkey_map img)" "0 < size_w (colorkey_map img)"
    "0 < size_h (colorkey_map img)"
    using assms nz by (simp_all add: colorkey_map_def wf_image_def)
  have "colorkey img = Inr (colorkey_map img)"
    using assms nz by (rule colorkey_eq_map)
  moreover have "colorkey (colorkey_map img) = Inr (colorkey_map (colorkey_map img))"
    using wf' by (rule colorkey_eq_map)
  ultimately show ?thesis
    using colorkey_map_idem [OF len] by simp
next
  case False
  then have "colorkey img = Inl IndexError"
    by (intro colorkey_empty) auto
  then show ?thesis by simp
qed

theorem colorkey_idempotent_witness:
  "wf_image sprite_2x2 \<and>
   (case colorkey sprite_2x2 of Inl e \<Rightarrow> Inl e | Inr img' \<Rightarrow> colorkey img') =
     Inr \<lparr>size_w = 2, size_h = 2,
       data = [(152, 0, 136, 0), (1, 2, 3, 255), (152, 0, 136, 0), (4, 5, 6, 255)]\<rparr>"
  using colorkey_idempotent [OF sprite_2x2_ok(1)] sprite_2x2_ok(1) colorkey_sprite_2x2
  by simp

text \<open>
  Claim C7 (colorkey order-independence). For a decoded image with at least one pixel,
  the in-place row-major scan of the source returns the image that the pure per-pixel
  map \<open>colorkey_map\<close> gives, and the scan over any list of coordinates that holds
  exactly the coordinates of the image, in any order, returns that same image.
\<close>

theorem colorkey_order_independent:
  assumes "wf_image img" "0 < size_w img" "0 < size_h img"
  shows "colorkey img = Inr (colorkey_map img) \<and>
         (\<forall>cs. set cs = {(x, y). x < size_w img \<and> y < size_h img} \<longrightarrow>
               colorkey_in_order cs img = colorkey img)"
  using assms colorkey_eq_map [OF assms] colorkey_in_order_map [OF assms] by simp

theorem colorkey_order_independent_witness:
  "wf_image sprite_2x2 \<and> 0 < size_w sprite_2x2 \<and> 0 < size_h sprite_2x2 \<and>
   colorkey sprite_2x2 = Inr (colorkey_map sprite_2x2) \<and>
   colorkey_in_order [(1, 1), (0, 0), (1, 0), (0, 1)] sprite_2x2 = colorkey sprite_2x2"
proof -
  have "set [(1::nat, 1::nat), (0, 0), (1, 0), (0, 1)] =
        {(x, y). x < size_w sprite_2x2 \<and> y < size_h sprite_2x2}"
    by (auto simp: sprite_2x2_def less_Suc_eq numeral_2_eq_2)
  then show ?thesis
    using colorkey_order_independent [OF sprite_2x2_ok] sprite_2x2_ok by blast
qed

text \<open>
  Claim C9 (safety precondition of the extraction). For a decoded image of width at
  least 1 and height at least 1, the read of the key at \<open>(0, 0)\<close> does not raise, the
  extraction returns an image (no access takes the \<^verbatim>\<open>IndexError\<close> branch), the loops
  visit the coordinates of \<open>row_major\<close>, which are each coordinate \<open>x < w\<close>, \<open>y < h\<close> once,
  and every visited coordinate is an index inside the pixel buffer.
\<close>

theorem colorkey_in_bounds:
  assumes "wf_image img" "1 \<le> size_w img" "1 \<le> size_h img"
  shows "pixels_get img 0 0 \<noteq> Inl IndexError \<and>
         (\<exists>img'. colorkey img = Inr img') \<and>
         colorkey img = colorkey_in_order (row_major (size_w img) (size_h img)) img \<and>
         distinct (row_major (size_w img) (size_h img)) \<and>
         set (row_major (size_w img) (size_h img)) = {(x, y). x < size_w img \<and> y < size_h img} \<and>
         (\<forall>c\<in>set (row_major (size_w img) (size_h img)).
            snd c * size_w img + fst c < length (data img))"
proof -
  have nz: "0 < size_w img" "0 < size_h img" using assms by simp_all
  have "pixels_get img 0 0 \<noteq> Inl IndexError"
    using nz by (simp add: pixels_get_def)
  moreover have "\<exists>img'. colorkey img = Inr img'"
    using colorkey_eq_map [OF assms(1) nz] by blast
  moreover have "\<forall>c\<in>set (row_major (size_w img) (size_h img)).
            snd c * size_w img + fst c < length (data img)"
    using assms(1) by (auto simp: set_row_major wf_image_def intro: idx_lt)
  ultimately show ?thesis
    using colorkey_row_major [of img] distinct_row_major set_row_major by blast
qed

theorem colorkey_in_bounds_witness:
  "wf_image sprite_2x2 \<and> 1 \<le> size_w sprite_2x2 \<and> 1 \<le> size_h sprite_2x2 \<and>
   pixels_get sprite_2x2 0 0 \<noteq> Inl IndexError \<and>
   (\<exists>img'. colorkey sprite_2x2 = Inr img') \<and>
   row_major (size_w sprite_2x2) (size_h sprite_2x2) = [(0, 0), (1, 0), (0, 1), (1, 1)]"
proof -
  have s: "wf_image sprite_2x2" "1 \<le> size_w sprite_2x2" "1 \<le> size_h sprite_2x2"
    by (simp_all add: sprite_2x2_def wf_image_def)
  have "row_major (size_w sprite_2x2) (size_h sprite_2x2) = [(0, 0), (1, 0), (0, 1), (1, 1)]"
    by (simp add: row_major_def sprite_2x2_def upt_rec)
  then show ?thesis
    using colorkey_in_bounds [OF s] s by blast
qed

section \<open>Joined paths and the names of the enemy files\<close>

lemma join_step_last: "b \<noteq> [] \<Longrightarrow> join_step a b \<noteq> [] \<and> last (join_step a b) = last b"
  by (simp add: join_step_def)

lemma join_step_rel:
  "a \<noteq> [] \<Longrightarrow> last a \<noteq> CHR ''/'' \<Longrightarrow> b \<noteq> [] \<Longrightarrow> hd b \<noteq> CHR ''/'' \<Longrightarrow>
   join_step a b = a @ ''/'' @ b"
  by (simp add: join_step_def)

lemma DST_last: "DST sd \<noteq> [] \<and> last (DST sd) = CHR ''s''"
  using join_step_last [of "''assets''" "join_step (join_step sd ''..'') ''public''"]
  by (simp add: DST_def path_join_def)

lemma lower_upper:
  "c \<in> set ''ABCDEFGHIJKLMNOP'' \<Longrightarrow> (of_char (lower c) :: nat) = of_char c + 32"
  by (auto simp: lower_def)

text \<open>
  Claim C3 (rotation-digit rule). For every category of \<^verbatim>\<open>ENEMIES\<close> and every frame
  identifier of its frame list, the rotation digit is \<^verbatim>\<open>"1"\<close> when the identifier is
  one of \<open>A\<close> to \<open>E\<close>, and \<^verbatim>\<open>"0"\<close> otherwise; the identifiers of the second kind all come
  after \<open>E\<close>.
\<close>

theorem rotation_digit_rule:
  "\<forall>(prefix, dirname, frames) \<in> set ENEMIES. \<forall>frame \<in> set frames.
     (frame \<in> set ''ABCDE'' \<longrightarrow> rotation frame = ''1'') \<and>
     (frame \<notin> set ''ABCDE'' \<longrightarrow> rotation frame = ''0'' \<and> (of_char frame :: nat) > of_char (CHR ''E''))"
  by (simp add: ENEMIES_def rotation_def is_walking_def)

theorem rotation_digit_rule_witness:
  "(''GARD'', ''guard'', ''ABCDEFGHIJKLMN'') \<in> set ENEMIES \<and>
   rotation (CHR ''C'') = ''1'' \<and> rotation (CHR ''F'') = ''0'' \<and> rotation (CHR ''N'') = ''0''"
proof -
  have m: "(''GARD'', ''guard'', ''ABCDEFGHIJKLMN'') \<in> set ENEMIES"
    by (simp add: ENEMIES_def)
  have "\<forall>frame \<in> set ''ABCDEFGHIJKLMN''.
     (frame \<in> set ''ABCDE'' \<longrightarrow> rotation frame = ''1'') \<and>
     (frame \<notin> set ''ABCDE'' \<longrightarrow> rotation frame = ''0'' \<and> (of_char frame :: nat) > of_char (CHR ''E''))"
    using rotation_digit_rule m by blast
  then show ?thesis using m by simp
qed

lemma enemy_out_dir_eq:
  assumes "dirname \<noteq> []" "hd dirname \<noteq> CHR ''/''"
  shows "enemy_out_dir sd dirname = DST sd @ ''/enemies/'' @ dirname"
proof -
  have "join_step (DST sd) ''enemies'' = DST sd @ ''/enemies''"
    using DST_last [of sd] by (simp add: join_step_rel)
  then show ?thesis
    using assms by (simp add: enemy_out_dir_def path_join_def join_step_rel)
qed

lemma enemy_src_path_eq:
  assumes "prefix \<noteq> []" "hd prefix \<noteq> CHR ''/''"
  shows "enemy_src_path prefix frame =
           ''/tmp/wolf3d-assets/w3d_enemies_fix/'' @ prefix @ [frame] @ rotation frame @ ''.bmp''"
  using assms
  by (cases prefix) (simp_all add: enemy_src_path_def enemy_src_file_def path_join_def
      join_step_def SRC_def)

lemma enemy_dst_path_eq:
  assumes "out_dir \<noteq> []" "last out_dir \<noteq> CHR ''/''" "frame \<noteq> CHR ''/''" "lower frame \<noteq> CHR ''/''"
  shows "enemy_dst_path out_dir frame = out_dir @ ''/'' @ [lower frame] @ ''.png''"
  using assms by (simp add: enemy_dst_path_def enemy_dst_file_def path_join_def join_step_def)

text \<open>
  Claim C6 (enemy file names). For every category of \<^verbatim>\<open>ENEMIES\<close> and every frame
  identifier of its list, the source file name is prefix, frame identifier, rotation
  digit and \<^verbatim>\<open>.bmp\<close> concatenated, the source path is that name under
  \<^verbatim>\<open>/tmp/wolf3d-assets/w3d_enemies_fix\<close>, and the destination path is the lower-case
  frame identifier followed by \<^verbatim>\<open>.png\<close> inside the category's subdirectory of
  \<^verbatim>\<open>DST/enemies\<close>, wherever the script is located.
\<close>

theorem enemy_file_names:
  "\<forall>(prefix, dirname, frames) \<in> set ENEMIES. \<forall>frame \<in> set frames.
     enemy_src_file prefix frame = prefix @ [frame] @ rotation frame @ ''.bmp'' \<and>
     enemy_src_path prefix frame =
       ''/tmp/wolf3d-assets/w3d_enemies_fix/'' @ enemy_src_file prefix frame \<and>
     enemy_out_dir script_dir dirname = DST script_dir @ ''/enemies/'' @ dirname \<and>
     enemy_dst_file frame = [lower frame] @ ''.png'' \<and>
     (of_char (lower frame) :: nat) = of_char frame + 32 \<and>
     enemy_dst_path (enemy_out_dir script_dir dirname) frame =
       enemy_out_dir script_dir dirname @ ''/'' @ enemy_dst_file frame"
proof (intro ballI, clarify)
  fix prefix dirname frames and frame :: char
  assume m: "(prefix, dirname, frames) \<in> set ENEMIES" and f: "frame \<in> set frames"
  have p: "prefix \<noteq> []" "hd prefix \<noteq> CHR ''/''" and d: "dirname \<noteq> []" "hd dirname \<noteq> CHR ''/''"
    "last dirname \<noteq> CHR ''/''"
    and fr: "frame \<in> set ''ABCDEFGHIJKLMNOP''"
    using m f by (auto simp: ENEMIES_def)
  have lo: "(of_char (lower frame) :: nat) = of_char frame + 32"
    using fr by (rule lower_upper)
  have nsl: "frame \<noteq> CHR ''/''" "lower frame \<noteq> CHR ''/''"
    using fr by (auto simp: lower_def)
  have od: "enemy_out_dir script_dir dirname = DST script_dir @ ''/enemies/'' @ dirname"
    using d(1,2) by (rule enemy_out_dir_eq)
  have odl: "enemy_out_dir script_dir dirname \<noteq> []" "last (enemy_out_dir script_dir dirname) \<noteq> CHR ''/''"
    using d by (simp_all add: od)
  have "enemy_dst_path (enemy_out_dir script_dir dirname) frame =
       enemy_out_dir script_dir dirname @ ''/'' @ enemy_dst_file frame"
    using enemy_dst_path_eq [OF odl nsl] by (simp add: enemy_dst_file_def)
  moreover have "enemy_src_path prefix frame =
       ''/tmp/wolf3d-assets/w3d_enemies_fix/'' @ enemy_src_file prefix frame"
    using enemy_src_path_eq [OF p, of frame] by (simp add: enemy_src_file_def)
  ultimately show "enemy_src_file prefix frame = prefix @ [frame] @ rotation frame @ ''.bmp'' \<and>
     enemy_src_path prefix frame =
       ''/tmp/wolf3d-assets/w3d_enemies_fix/'' @ enemy_src_file prefix frame \<and>
     enemy_out_dir script_dir dirname = DST script_dir @ ''/enemies/'' @ dirname \<and>
     enemy_dst_file frame = [lower frame] @ ''.png'' \<and>
     (of_char (lower frame) :: nat) = of_char frame + 32 \<and>
     enemy_dst_path (enemy_out_dir script_dir dirname) frame =
       enemy_out_dir script_dir dirname @ ''/'' @ enemy_dst_file frame"
    using od lo by (simp add: enemy_src_file_def enemy_dst_file_def)
qed

theorem enemy_file_names_witness:
  "(''MTNT'', ''mutant'', ''ABCDEFGHIJKLMNOP'') \<in> set ENEMIES \<and>
   enemy_src_path ''MTNT'' (CHR ''P'') = ''/tmp/wolf3d-assets/w3d_enemies_fix/MTNTP0.bmp'' \<and>
   enemy_dst_path (enemy_out_dir repo_scripts ''mutant'') (CHR ''P'') =
     ''/repo/scripts/../public/assets/enemies/mutant/p.png''"
proof -
  have m: "(''MTNT'', ''mutant'', ''ABCDEFGHIJKLMNOP'') \<in> set ENEMIES"
    by (simp add: ENEMIES_def)
  have f: "CHR ''P'' \<in> set ''ABCDEFGHIJKLMNOP''"
    by simp
  have inst: "enemy_src_file ''MTNT'' (CHR ''P'') =
       ''MTNT'' @ [CHR ''P''] @ rotation (CHR ''P'') @ ''.bmp'' \<and>
     enemy_src_path ''MTNT'' (CHR ''P'') =
       ''/tmp/wolf3d-assets/w3d_enemies_fix/'' @ enemy_src_file ''MTNT'' (CHR ''P'') \<and>
     enemy_out_dir repo_scripts ''mutant'' = DST repo_scripts @ ''/enemies/'' @ ''mutant'' \<and>
     enemy_dst_file (CHR ''P'') = [lower (CHR ''P'')] @ ''.png'' \<and>
     (of_char (lower (CHR ''P'')) :: nat) = of_char (CHR ''P'') + 32 \<and>
     enemy_dst_path (enemy_out_dir repo_scripts ''mutant'') (CHR ''P'') =
       enemy_out_dir repo_scripts ''mutant'' @ ''/'' @ enemy_dst_file (CHR ''P'')"
    using enemy_file_names [of repo_scripts] m f by blast
  have src: "enemy_src_path ''MTNT'' (CHR ''P'') =
       ''/tmp/wolf3d-assets/w3d_enemies_fix/'' @ ''MTNT'' @ [CHR ''P''] @ rotation (CHR ''P'') @ ''.bmp''"
    using inst by metis
  have dst: "enemy_dst_path (enemy_out_dir repo_scripts ''mutant'') (CHR ''P'') =
       (DST repo_scripts @ ''/enemies/'' @ ''mutant'') @ ''/'' @ [lower (CHR ''P'')] @ ''.png''"
    using inst by metis
  have ev: "rotation (CHR ''P'') = ''0''" "lower (CHR ''P'') = CHR ''p''"
    "DST repo_scripts = ''/repo/scripts/../public/assets''"
    by (simp_all add: rotation_def is_walking_def lower_def DST_def repo_scripts_def
        path_join_def join_step_def)
  show ?thesis
    unfolding src dst ev using m by simp
qed

section \<open>Splitting paths, directories and \<^verbatim>\<open>makedirs\<close>\<close>

lemma path_split_tail: "snd (path_split p) = rev (takeWhile (\<lambda>c. c \<noteq> CHR ''/'') (rev p))"
  by (simp add: path_split_def Let_def)

lemma path_split_tail_set:
  "set (snd (path_split p)) \<subseteq> set p" "CHR ''/'' \<notin> set (snd (path_split p))"
  using set_takeWhileD [of _ "\<lambda>c. c \<noteq> CHR ''/''" "rev p"]
  by (auto simp: path_split_tail)

lemma tail_not_all_sep:
  assumes "snd (path_split p) \<noteq> []"
  shows "\<not> all_sep p"
proof -
  obtain c where c: "c \<in> set (snd (path_split p))"
    using assms by (cases "snd (path_split p)") auto
  then have "c \<in> set p" "c \<noteq> CHR ''/''"
    using path_split_tail_set [of p] by auto
  then show ?thesis by (auto simp: all_sep_def)
qed

lemma path_split_append:
  assumes "a \<noteq> []" "last a \<noteq> CHR ''/''" "CHR ''/'' \<notin> set b"
  shows "path_split (a @ ''/'' @ b) = (a, b)"
proof -
  let ?P = "\<lambda>c. c \<noteq> CHR ''/''"
  have r: "rev (a @ ''/'' @ b) = rev b @ CHR ''/'' # rev a" by simp
  have b: "\<forall>c \<in> set (rev b). ?P c" using assms(3) by auto
  have "takeWhile ?P (rev b @ CHR ''/'' # rev a) = rev b @ takeWhile ?P (CHR ''/'' # rev a)"
    using b by (intro takeWhile_append2) blast
  then have tk: "takeWhile ?P (rev b @ CHR ''/'' # rev a) = rev b"
    by simp
  have "dropWhile ?P (rev b @ CHR ''/'' # rev a) = dropWhile ?P (CHR ''/'' # rev a)"
    using b by (intro dropWhile_append2) blast
  then have dr: "dropWhile ?P (rev b @ CHR ''/'' # rev a) = CHR ''/'' # rev a"
    by simp
  have ra: "rev a \<noteq> []" "hd (rev a) \<noteq> CHR ''/''"
    using assms(1,2) by (simp_all add: hd_rev)
  have "last a \<in> set a" using assms(1) by simp
  then have na: "\<not> all_sep (a @ ''/'')"
    using assms(2) by (auto simp: all_sep_def)
  have st: "dropWhile (\<lambda>c. c = CHR ''/'') (CHR ''/'' # rev a) = rev a"
    using ra by (cases "rev a") simp_all
  show ?thesis
    unfolding path_split_def Let_def r tk dr using na st by simp
qed

lemma path_split_join:
  assumes "a \<noteq> []" "last a \<noteq> CHR ''/''" "plain_name b"
  shows "join_step a b = a @ ''/'' @ b" "path_split (join_step a b) = (a, b)"
proof -
  have b: "b \<noteq> []" "CHR ''/'' \<notin> set b"
    using assms(3) by (simp_all add: plain_name_def)
  have hb: "hd b \<noteq> CHR ''/''"
    using b hd_in_set [of b] by metis
  show j: "join_step a b = a @ ''/'' @ b"
    using assms(1,2) b hb by (simp add: join_step_def)
  show "path_split (join_step a b) = (a, b)"
    unfolding j using assms(1,2) b(2) by (rule path_split_append)
qed

lemma isdir_mono: "dirs w \<subseteq> dirs w' \<Longrightarrow> isdir w p \<Longrightarrow> isdir w' p"
proof (induction w p rule: isdir.induct)
  case (1 w p)
  note assms = "1.prems"(1)
  show ?case
  proof (cases "(p \<noteq> [] \<and> all_sep p) \<or> p \<in> dirs w")
    case True
    then have "(p \<noteq> [] \<and> all_sep p) \<or> p \<in> dirs w'" using assms by auto
    then show ?thesis by (subst isdir.simps) simp
  next
    case False
    have u: "isdir w p = (if snd (path_split p) = ''..''
           then (if fst (path_split p) = [] then True else isdir w (fst (path_split p)))
           else False)"
      by (subst isdir.simps) (simp add: False)
    have t: "snd (path_split p) = ''..''"
      using "1.prems"(2) u by (simp split: if_splits)
    have h: "fst (path_split p) \<noteq> [] \<longrightarrow> isdir w (fst (path_split p))"
      using "1.prems"(2) u t by (simp split: if_splits)
    have "fst (path_split p) \<noteq> [] \<longrightarrow> isdir w' (fst (path_split p))"
      using h "1.IH" [OF False t _ assms] by blast
    then show ?thesis using t by (subst isdir.simps) simp
  qed
qed

lemma isdir_dirs_eq:
  assumes "dirs w' = dirs w"
  shows "isdir w' p = isdir w p"
  using assms isdir_mono [of w w' p] isdir_mono [of w' w p] by auto

lemma isdir_member: "p \<in> dirs w \<Longrightarrow> isdir w p"
  by (subst isdir.simps) simp

lemma isdir_plain:
  assumes "snd (path_split p) \<noteq> []" "snd (path_split p) \<noteq> ''..''"
  shows "isdir w p = (p \<in> dirs w)"
  using assms tail_not_all_sep [OF assms(1)] by (subst isdir.simps) simp

lemma exists_mono:
  assumes "dirs w \<subseteq> dirs w'" "\<forall>p. files w p \<noteq> None \<longrightarrow> files w' p \<noteq> None"
  shows "exists_path w p \<Longrightarrow> exists_path w' p"
  using assms isdir_mono [OF assms(1)] by (auto simp: exists_path_def)

lemma mkdir_result:
  assumes "mkdir name w = (r, w')"
  shows "files w' = files w \<and> console w' = console w \<and> dirs w \<subseteq> dirs w' \<and>
         (\<forall>u. r = Inr u \<longrightarrow> name \<in> dirs w') \<and> (\<forall>e. r = Inl e \<longrightarrow> w' = w)"
  using assms by (auto simp: mkdir_def split: if_splits)

lemma mkdir_exist_ok_result:
  assumes "mkdir_exist_ok name w = (r, w')"
  shows "files w' = files w \<and> console w' = console w \<and> dirs w \<subseteq> dirs w' \<and>
         (\<forall>u. r = Inr u \<longrightarrow> isdir w' name)"
proof -
  obtain r1 w1 where m: "mkdir name w = (r1, w1)" by (cases "mkdir name w")
  note a = mkdir_result [OF m]
  show ?thesis
  proof (cases r1)
    case (Inl e)
    have "mkdir_exist_ok name w = (if isdir w1 name then (Inr (), w1) else (Inl e, w1))"
      by (simp add: mkdir_exist_ok_def m Inl)
    then have "w' = w1" "\<forall>u. r = Inr u \<longrightarrow> isdir w1 name"
      using assms by (simp_all split: if_splits)
    then show ?thesis using a by simp
  next
    case (Inr u)
    then have "w' = w1" "r = Inr u" using assms m by (auto simp: mkdir_exist_ok_def)
    moreover have "name \<in> dirs w1" using a Inr by simp
    ultimately show ?thesis using a isdir_member by simp
  qed
qed

lemma makedirs_unfold:
  "makedirs name w =
     (if fst (makedirs_split name) \<noteq> [] \<and> snd (makedirs_split name) \<noteq> [] \<and>
         \<not> exists_path w (fst (makedirs_split name))
      then (case makedirs (fst (makedirs_split name)) w of
              (Inl e, w1) \<Rightarrow>
                if e = FileExistsError
                then (if snd (makedirs_split name) = ''.'' then (Inr (), w1)
                      else mkdir_exist_ok name w1)
                else (Inl e, w1)
            | (Inr u, w1) \<Rightarrow>
                if snd (makedirs_split name) = ''.'' then (Inr (), w1)
                else mkdir_exist_ok name w1)
      else mkdir_exist_ok name w)"
  by (rule makedirs.simps)

lemma split_shorter:
  "length (fst (path_split p)) + length (snd (path_split p)) \<le> length p"
proof -
  let ?h = "rev (dropWhile (\<lambda>c. c \<noteq> CHR ''/'') (rev p))"
  have "length ?h + length (snd (path_split p)) = length p"
    using takeWhile_dropWhile_id [of "\<lambda>c. c \<noteq> CHR ''/''" "rev p"]
    by (metis (no_types, lifting) add.commute length_append length_rev path_split_def snd_conv)
  moreover have "length (fst (path_split p)) \<le> length ?h"
    by (simp add: path_split_def Let_def length_dropWhile_le)
  ultimately show ?thesis by simp
qed

lemma makedirs_head_shorter:
  assumes "snd (makedirs_split name) \<noteq> []"
  shows "length (fst (makedirs_split name)) < length name"
proof -
  have "length (fst (makedirs_split name)) + length (snd (makedirs_split name)) \<le> length name"
    using split_shorter [of name] split_shorter [of "fst (path_split name)"]
    by (simp add: makedirs_split_def)
  then show ?thesis using assms by (cases "snd (makedirs_split name)") simp_all
qed

lemma makedirs_cases:
  assumes "makedirs name w = (r, w')"
  obtains
    (direct) "mkdir_exist_ok name w = (r, w')"
  | (dot) r1 w1 where "makedirs (fst (makedirs_split name)) w = (r1, w1)"
      "snd (makedirs_split name) = ''.''" "r = Inr ()" "w' = w1"
  | (failed) e where "makedirs (fst (makedirs_split name)) w = (Inl e, w')" "r = Inl e"
      "e \<noteq> FileExistsError" "snd (makedirs_split name) \<noteq> []"
  | (made) r1 w1 where "makedirs (fst (makedirs_split name)) w = (r1, w1)"
      "snd (makedirs_split name) \<noteq> ''.''" "snd (makedirs_split name) \<noteq> []"
      "mkdir_exist_ok name w1 = (r, w')"
proof -
  define c where "c \<longleftrightarrow> fst (makedirs_split name) \<noteq> [] \<and> snd (makedirs_split name) \<noteq> [] \<and>
         \<not> exists_path w (fst (makedirs_split name))"
  obtain r1 w1 where m: "makedirs (fst (makedirs_split name)) w = (r1, w1)"
    by (cases "makedirs (fst (makedirs_split name)) w")
  have "makedirs name w =
     (if c
      then (case (r1, w1) of
              (Inl e, w1) \<Rightarrow>
                if e = FileExistsError
                then (if snd (makedirs_split name) = ''.'' then (Inr (), w1)
                      else mkdir_exist_ok name w1)
                else (Inl e, w1)
            | (Inr u, w1) \<Rightarrow>
                if snd (makedirs_split name) = ''.'' then (Inr (), w1)
                else mkdir_exist_ok name w1)
      else mkdir_exist_ok name w)"
    using makedirs_unfold [of name w] unfolding c_def [symmetric] m .
  then have u: "(r, w') =
     (if c
      then (case r1 of
              Inl e \<Rightarrow>
                if e = FileExistsError
                then (if snd (makedirs_split name) = ''.'' then (Inr (), w1)
                      else mkdir_exist_ok name w1)
                else (Inl e, w1)
            | Inr u \<Rightarrow>
                if snd (makedirs_split name) = ''.'' then (Inr (), w1)
                else mkdir_exist_ok name w1)
      else mkdir_exist_ok name w)"
    using assms by simp
  show thesis
  proof (cases c)
    case False
    then show ?thesis using u direct by simp
  next
    case True
    then have ne: "snd (makedirs_split name) \<noteq> []" by (simp add: c_def)
    show ?thesis
    proof (cases "snd (makedirs_split name) = ''.''")
      case d: True
      show ?thesis
      proof (cases r1)
        case (Inl e)
        show ?thesis
        proof (cases "e = FileExistsError")
          case True
          then show ?thesis using u \<open>c\<close> d Inl m dot by simp
        next
          case False
          then show ?thesis using u \<open>c\<close> Inl m ne failed by simp
        qed
      next
        case (Inr v)
        then show ?thesis using u \<open>c\<close> d m dot by simp
      qed
    next
      case nd: False
      show ?thesis
      proof (cases r1)
        case (Inl e)
        show ?thesis
        proof (cases "e = FileExistsError")
          case True
          then show ?thesis using u \<open>c\<close> nd Inl m ne made by simp
        next
          case False
          then show ?thesis using u \<open>c\<close> Inl m ne failed by simp
        qed
      next
        case (Inr v)
        then show ?thesis using u \<open>c\<close> nd m ne made by simp
      qed
    qed
  qed
qed

lemma makedirs_result:
  "makedirs name w = (r, w') \<Longrightarrow>
     files w' = files w \<and> console w' = console w \<and> dirs w \<subseteq> dirs w'"
proof (induction "length name" arbitrary: name w r w' rule: less_induct)
  case less
  from less.prems show ?case
  proof (cases rule: makedirs_cases)
    case direct
    then show ?thesis using mkdir_exist_ok_result by blast
  next
    case (dot r1 w1)
    then have "length (fst (makedirs_split name)) < length name"
      by (intro makedirs_head_shorter) simp
    from less.hyps [OF this dot(1)] show ?thesis using dot by simp
  next
    case (failed e)
    then have "length (fst (makedirs_split name)) < length name"
      by (intro makedirs_head_shorter) simp
    from less.hyps [OF this failed(1)] show ?thesis by simp
  next
    case (made r1 w1)
    then have "length (fst (makedirs_split name)) < length name"
      by (intro makedirs_head_shorter) simp
    from less.hyps [OF this made(1)]
    have "files w1 = files w \<and> console w1 = console w \<and> dirs w \<subseteq> dirs w1" .
    then show ?thesis using mkdir_exist_ok_result [OF made(4)] by auto
  qed
qed

lemma makedirs_success:
  assumes "makedirs name w = (Inr u, w')" "snd (makedirs_split name) \<noteq> ''.''"
  shows "isdir w' name"
  using assms(1)
proof (cases rule: makedirs_cases)
  case direct
  then show ?thesis using mkdir_exist_ok_result by blast
next
  case (dot r1 w1)
  then show ?thesis using assms(2) by simp
next
  case (failed e)
  then show ?thesis by simp
next
  case (made r1 w1)
  then show ?thesis using mkdir_exist_ok_result by blast
qed

lemma ensure_dir_result:
  assumes "ensure_dir name w = (r, w')"
  shows "files w' = files w \<and> console w' = console w \<and> dirs w \<subseteq> dirs w'"
  using assms makedirs_result by (simp add: ensure_dir_def)

lemma ensure_dir_success:
  assumes "ensure_dir name w = (Inr u, w')" "path_split name = (a, b)" "plain_name b"
  shows "name \<in> dirs w'"
proof -
  have t: "snd (path_split name) = b" "b \<noteq> []" "b \<noteq> ''.''" "b \<noteq> ''..''"
    using assms(2,3) by (simp_all add: plain_name_def)
  then have "makedirs_split name = path_split name"
    by (simp add: makedirs_split_def)
  then have "isdir w' name"
    using assms(1) t makedirs_success [of name w u w'] by (simp add: ensure_dir_def)
  then show ?thesis
    using isdir_plain [of name w'] t by simp
qed

section \<open>Single conversions\<close>

lemma isdir_print [simp]: "isdir (py_print s w) p = isdir w p"
  by (rule isdir_dirs_eq) (simp add: py_print_def)

lemma isdir_files_update [simp]: "isdir (w\<lparr>files := f\<rparr>) p = isdir w p"
  by (rule isdir_dirs_eq) simp

lemma py_print_fields [simp]:
  "files (py_print s w) = files w" "dirs (py_print s w) = dirs w"
  "console (py_print s w) = console w @ [s]"
  "exists_path (py_print s w) p = exists_path w p"
  by (simp_all add: exists_path_def) (simp_all add: py_print_def)

lemma bmp_name_tail:
  assumes "bmp_name p"
  shows "snd (path_split p) \<noteq> []" "snd (path_split p) \<noteq> ''..''"
proof -
  let ?P = "\<lambda>c. c \<noteq> CHR ''/''"
  have p: "p \<noteq> []" "?P (last p)" "last p \<noteq> CHR ''.''"
    using assms by (auto simp: bmp_name_def)
  have r: "rev p = last p # rev (butlast p)"
    using p(1) by (metis append_butlast_last_id rev.simps(2) rev_swap)
  have "takeWhile ?P (rev p) = last p # takeWhile ?P (rev (butlast p))"
    by (subst r) (simp add: p(2))
  then have t: "snd (path_split p) = rev (takeWhile ?P (rev (butlast p))) @ [last p]"
    by (simp add: path_split_tail)
  show "snd (path_split p) \<noteq> []" using t by simp
  have "last (snd (path_split p)) = last p" using t by simp
  then show "snd (path_split p) \<noteq> ''..''" using p(3) by auto
qed

lemma isdir_bmp: "bmp_name p \<Longrightarrow> isdir w p = (p \<in> dirs w)"
  using bmp_name_tail [of p] by (rule isdir_plain)

lemma convert_wall_missing:
  assumes "\<not> exists_path w (wall_src_path src_file)"
  shows "convert_wall sd src_file dst_file w =
           (Inr False, py_print (''  SKIP (not found): '' @ wall_src_path src_file) w)"
  using assms by (simp add: convert_wall_def)

lemma convert_enemy_missing:
  assumes "\<not> exists_path w src_path"
  shows "convert_enemy src_path dst_path w =
           (Inr False, py_print (''  SKIP (not found): '' @ src_path) w)"
  using assms by (simp add: convert_enemy_def)

text \<open>
  Claim C4 (missing sources are skipped). When the source path of a wall entry or of an
  enemy frame does not exist, the conversion returns \<^verbatim>\<open>False\<close> and changes nothing but
  the console, where it prints the skip notice: no file and no directory is created.
  The loop then goes on with the remaining items and with the same counter.
\<close>

theorem missing_source_skipped:
  "(\<not> exists_path w (wall_src_path src_file) \<longrightarrow>
      convert_wall script_dir src_file dst_file w =
        (Inr False, py_print (''  SKIP (not found): '' @ wall_src_path src_file) w) \<and>
      wall_loop script_dir ((src_file, dst_file) # rest) wall_count w =
        wall_loop script_dir rest wall_count
          (py_print (''  SKIP (not found): '' @ wall_src_path src_file) w)) \<and>
   (\<not> exists_path w (enemy_src_path prefix frame) \<longrightarrow>
      convert_enemy (enemy_src_path prefix frame) dst_path w =
        (Inr False, py_print (''  SKIP (not found): '' @ enemy_src_path prefix frame) w) \<and>
      frame_loop prefix out_dir (frame # frames) enemy_count w =
        frame_loop prefix out_dir frames enemy_count
          (py_print (''  SKIP (not found): '' @ enemy_src_path prefix frame) w)) \<and>
   files (py_print notice w) = files w \<and> dirs (py_print notice w) = dirs w"
  by (simp add: convert_wall_missing convert_enemy_missing)

theorem missing_source_skipped_witness:
  "\<not> exists_path empty_world (wall_src_path ''greybrick1.bmp'') \<and>
   convert_wall repo_scripts ''greybrick1.bmp'' ''wall_0.png'' empty_world =
     (Inr False,
      \<lparr>files = Map.empty, dirs = {},
       console = [''  SKIP (not found): /tmp/wolf3d-assets/w3d_textures_fix/greybrick1.bmp'']\<rparr>) \<and>
   wall_loop repo_scripts [(''greybrick1.bmp'', ''wall_0.png'')] 0 empty_world =
     (Inr 0,
      \<lparr>files = Map.empty, dirs = {},
       console = [''  SKIP (not found): /tmp/wolf3d-assets/w3d_textures_fix/greybrick1.bmp'']\<rparr>) \<and>
   \<not> exists_path empty_world (enemy_src_path ''GARD'' (CHR ''A'')) \<and>
   frame_loop ''GARD'' (enemy_out_dir repo_scripts ''guard'') ''A'' 0 empty_world =
     (Inr 0,
      \<lparr>files = Map.empty, dirs = {},
       console = [''  SKIP (not found): /tmp/wolf3d-assets/w3d_enemies_fix/GARDA1.bmp'']\<rparr>)"
proof -
  have p: "wall_src_path ''greybrick1.bmp'' = ''/tmp/wolf3d-assets/w3d_textures_fix/greybrick1.bmp''"
    "enemy_src_path ''GARD'' (CHR ''A'') = ''/tmp/wolf3d-assets/w3d_enemies_fix/GARDA1.bmp''"
    by (simp_all add: wall_src_path_def enemy_src_path_def enemy_src_file_def rotation_def
        is_walking_def path_join_def join_step_def SRC_def)
  have b: "bmp_name (wall_src_path ''greybrick1.bmp'')"
    "bmp_name (enemy_src_path ''GARD'' (CHR ''A''))"
    unfolding p by (simp_all add: bmp_name_def)
  have e: "\<not> exists_path empty_world (wall_src_path ''greybrick1.bmp'')"
    "\<not> exists_path empty_world (enemy_src_path ''GARD'' (CHR ''A''))"
    using b by (simp_all add: exists_path_def isdir_bmp empty_world_def)
  have pr: "py_print s empty_world = \<lparr>files = Map.empty, dirs = {}, console = [s]\<rparr>" for s
    by (simp add: py_print_def empty_world_def)
  note t = missing_source_skipped [of empty_world "''greybrick1.bmp''" repo_scripts "''wall_0.png''"
        "[]" 0 "''GARD''" "CHR ''A''" "enemy_dst_path (enemy_out_dir repo_scripts ''guard'') (CHR ''A'')"
        "enemy_out_dir repo_scripts ''guard''" "[]" 0 "[]"]
  have w: "convert_wall repo_scripts ''greybrick1.bmp'' ''wall_0.png'' empty_world =
        (Inr False, py_print (''  SKIP (not found): '' @ wall_src_path ''greybrick1.bmp'') empty_world)"
    "wall_loop repo_scripts [(''greybrick1.bmp'', ''wall_0.png'')] 0 empty_world =
        wall_loop repo_scripts [] 0
          (py_print (''  SKIP (not found): '' @ wall_src_path ''greybrick1.bmp'') empty_world)"
    "frame_loop ''GARD'' (enemy_out_dir repo_scripts ''guard'') ''A'' 0 empty_world =
        frame_loop ''GARD'' (enemy_out_dir repo_scripts ''guard'') [] 0
          (py_print (''  SKIP (not found): '' @ enemy_src_path ''GARD'' (CHR ''A'')) empty_world)"
    using t e by blast+
  show ?thesis
    unfolding w using e by (simp add: p pr)
qed

lemma WALL_MAP_plain: "\<forall>(s, d) \<in> set WALL_MAP. plain_name d"
  by (simp add: WALL_MAP_def plain_name_def)

lemma walls_dir_last: "walls_dir sd \<noteq> []" "last (walls_dir sd) \<noteq> CHR ''/''"
  using join_step_last [of "''walls''" "DST sd"] by (simp_all add: walls_dir_def path_join_def)

lemma wall_dst_path_split:
  assumes "plain_name dst_file"
  shows "path_split (wall_dst_path sd dst_file) = (walls_dir sd, dst_file)"
proof -
  have "wall_dst_path sd dst_file = join_step (walls_dir sd) dst_file"
    by (simp add: wall_dst_path_def walls_dir_def path_join_def)
  then show ?thesis
    using path_split_join(2) [OF walls_dir_last assms] by simp
qed

lemma convert_RGBA_opaque:
  assumes "wf_raster s" "r_alpha s = None" "x < r_w s" "y < r_h s"
  shows "\<exists>r g b. r_rgb s ! (y * r_w s + x) = (r, g, b) \<and>
           pixels_get (convert_RGBA s) x y = Inr (r, g, b, 255)"
proof -
  obtain r g b where c: "r_rgb s ! (y * r_w s + x) = (r, g, b)"
    by (cases "r_rgb s ! (y * r_w s + x)")
  have "y * r_w s + x < length (r_rgb s)"
    using assms(1,3,4) idx_lt [of x "r_w s" y "r_h s"] by (simp add: wf_raster_def)
  then have "pixels_get (convert_RGBA s) x y = Inr (r, g, b, 255)"
    using assms(2,3,4) c by (simp add: pixels_get_def convert_RGBA_def)
  then show ?thesis using c by blast
qed

lemma convert_RGBA_length:
  assumes "wf_raster s"
  shows "length (data (convert_RGBA s)) = r_w s * r_h s"
  using assms by (auto simp: convert_RGBA_def wf_raster_def split: option.splits)

text \<open>
  Claim C5 (wall conversion output). For an entry of \<^verbatim>\<open>WALL_MAP\<close> whose source file is
  present and holds a decodable bitmap, called where \<^verbatim>\<open>main\<close> calls it (the walls
  directory exists) and with a destination path that is not taken by a directory,
  \<^verbatim>\<open>convert_wall\<close> returns \<^verbatim>\<open>True\<close> and leaves at the destination path under \<^verbatim>\<open>DST/walls\<close>
  a PNG of the width and height of the source, with one pixel for every coordinate.
  When the source has no alpha channel, the pixel at every coordinate has the colour
  of the source there and alpha 255. No other file is touched.
\<close>

theorem wall_conversion_output:
  assumes "(src_file, dst_file) \<in> set WALL_MAP"
    and "files w (wall_src_path src_file) = Some (Bitmap s)" and "wf_raster s"
    and "walls_dir script_dir \<in> dirs w"
    and "wall_dst_path script_dir dst_file \<notin> dirs w"
  shows "\<exists>img w'. convert_wall script_dir src_file dst_file w = (Inr True, w') \<and>
           files w' (wall_dst_path script_dir dst_file) = Some (Png img) \<and>
           size_w img = r_w s \<and> size_h img = r_h s \<and>
           length (data img) = r_w s * r_h s \<and>
           (r_alpha s = None \<longrightarrow>
              (\<forall>x y. x < r_w s \<longrightarrow> y < r_h s \<longrightarrow>
                 (\<exists>r g b. r_rgb s ! (y * r_w s + x) = (r, g, b) \<and>
                    pixels_get img x y = Inr (r, g, b, 255)))) \<and>
           (\<forall>p. p \<noteq> wall_dst_path script_dir dst_file \<longrightarrow> files w' p = files w p) \<and>
           dirs w' = dirs w"
proof (intro exI conjI)
  let ?img = "convert_RGBA s"
  let ?dst = "wall_dst_path script_dir dst_file"
  let ?w' = "py_print (''  OK '' @ src_file @ '' -> '' @ dst_file)
               (w\<lparr>files := (files w)(?dst \<mapsto> Png ?img)\<rparr>)"
  have pl: "plain_name dst_file" using assms(1) WALL_MAP_plain by blast
  have sp: "path_split ?dst = (walls_dir script_dir, dst_file)"
    using pl by (rule wall_dst_path_split)
  have nd: "\<not> isdir w ?dst"
    using isdir_plain [of ?dst w] sp pl assms(5) by (simp add: plain_name_def)
  have pd: "isdir w (fst (path_split ?dst))"
    using sp assms(4) by (simp add: isdir_member)
  have ex: "exists_path w (wall_src_path src_file)"
    using assms(2) by (simp add: exists_path_def)
  have op: "open_RGBA w (wall_src_path src_file) = Inr ?img"
    using assms(2) by (simp add: open_RGBA_def)
  have sv: "save_PNG ?img ?dst w = (Inr (), w\<lparr>files := (files w)(?dst \<mapsto> Png ?img)\<rparr>)"
    using nd pd by (simp add: save_PNG_def)
  show "convert_wall script_dir src_file dst_file w = (Inr True, ?w')"
    by (simp add: convert_wall_def ex op sv)
  show "files ?w' ?dst = Some (Png ?img)" by simp
  show "size_w ?img = r_w s" "size_h ?img = r_h s"
    by (simp_all add: convert_RGBA_def)
  show "length (data ?img) = r_w s * r_h s"
    using assms(3) by (rule convert_RGBA_length)
  show "r_alpha s = None \<longrightarrow>
              (\<forall>x y. x < r_w s \<longrightarrow> y < r_h s \<longrightarrow>
                 (\<exists>r g b. r_rgb s ! (y * r_w s + x) = (r, g, b) \<and>
                    pixels_get ?img x y = Inr (r, g, b, 255)))"
    using convert_RGBA_opaque [OF assms(3)] by blast
  show "\<forall>p. p \<noteq> ?dst \<longrightarrow> files ?w' p = files w p" by simp
  show "dirs ?w' = dirs w" by simp
qed

theorem wall_conversion_output_witness:
  "(''greybrick1.bmp'', ''wall_0.png'') \<in> set WALL_MAP \<and>
   r_alpha grey_1x2 = None \<and> r_w grey_1x2 = 1 \<and> r_h grey_1x2 = 2 \<and> wf_raster grey_1x2 \<and>
   files walls_world (wall_src_path ''greybrick1.bmp'') = Some (Bitmap grey_1x2) \<and>
   walls_dir repo_scripts \<in> dirs walls_world \<and>
   wall_dst_path repo_scripts ''wall_0.png'' \<notin> dirs walls_world \<and>
   (\<exists>img w'.
      convert_wall repo_scripts ''greybrick1.bmp'' ''wall_0.png'' walls_world = (Inr True, w') \<and>
      files w' (wall_dst_path repo_scripts ''wall_0.png'') = Some (Png img) \<and>
      size_w img = r_w grey_1x2 \<and> size_h img = r_h grey_1x2 \<and>
      length (data img) = r_w grey_1x2 * r_h grey_1x2 \<and>
      (r_alpha grey_1x2 = None \<longrightarrow>
         (\<forall>x y. x < r_w grey_1x2 \<longrightarrow> y < r_h grey_1x2 \<longrightarrow>
            (\<exists>r g b. r_rgb grey_1x2 ! (y * r_w grey_1x2 + x) = (r, g, b) \<and>
               pixels_get img x y = Inr (r, g, b, 255)))) \<and>
      (\<forall>p. p \<noteq> wall_dst_path repo_scripts ''wall_0.png'' \<longrightarrow> files w' p = files walls_world p) \<and>
      dirs w' = dirs walls_world)"
proof -
  have p: "wall_src_path ''greybrick1.bmp'' = ''/tmp/wolf3d-assets/w3d_textures_fix/greybrick1.bmp''"
    "walls_dir repo_scripts = ''/repo/scripts/../public/assets/walls''"
    "wall_dst_path repo_scripts ''wall_0.png'' = ''/repo/scripts/../public/assets/walls/wall_0.png''"
    by (simp_all add: wall_src_path_def walls_dir_def wall_dst_path_def DST_def repo_scripts_def
        path_join_def join_step_def SRC_def)
  have h: "files walls_world (wall_src_path ''greybrick1.bmp'') = Some (Bitmap grey_1x2)"
    "walls_dir repo_scripts \<in> dirs walls_world"
    "wall_dst_path repo_scripts ''wall_0.png'' \<notin> dirs walls_world"
    unfolding p by (simp_all add: walls_world_def small_world_def source_dirs_def)
  have g: "r_alpha grey_1x2 = None" "r_w grey_1x2 = 1" "r_h grey_1x2 = 2" "wf_raster grey_1x2"
    by (simp_all add: grey_1x2_def wf_raster_def)
  have m: "(''greybrick1.bmp'', ''wall_0.png'') \<in> set WALL_MAP"
    by (simp add: WALL_MAP_def)
  show ?thesis
    using m g h wall_conversion_output [OF m h(1) g(4) h(2,3)] by (intro conjI)
qed

section \<open>Runs keep the sources and the directories\<close>

lemma later_refl: "later w w"
  by (simp add: later_def)

lemma later_trans: "later w1 w2 \<Longrightarrow> later w2 w3 \<Longrightarrow> later w1 w3"
  unfolding later_def by (metis subset_trans)

lemma later_print: "later w (py_print s w)"
  by (simp add: later_def)

lemma later_bmp: "later w w' \<Longrightarrow> bmp_name p \<Longrightarrow> files w' p = files w p"
  by (simp add: later_def)

lemma later_dirs: "later w w' \<Longrightarrow> d \<in> dirs w \<Longrightarrow> d \<in> dirs w'"
  by (auto simp: later_def)

lemma later_files: "later w w' \<Longrightarrow> files w p \<noteq> None \<Longrightarrow> files w' p \<noteq> None"
  by (simp add: later_def)

lemma later_exists: "later w w' \<Longrightarrow> exists_path w p \<Longrightarrow> exists_path w' p"
  unfolding later_def by (rule exists_mono) simp_all

lemma present_later:
  assumes "later w0 w" "bmp_name p" "ok = exists_path w p" "ok \<longrightarrow> files w p \<noteq> None"
  shows "ok = exists_path w0 p"
proof (cases ok)
  case True
  then have "files w0 p \<noteq> None"
    using assms(4) later_bmp [OF assms(1,2)] by simp
  then show ?thesis using True by (simp add: exists_path_def)
next
  case False
  then show ?thesis using assms(3) later_exists [OF assms(1)] by blast
qed

lemma bmp_name_join:
  "b \<noteq> [] \<Longrightarrow> bmp_name (join_step a b) = bmp_name b"
  using join_step_last [of b a] by (simp add: bmp_name_def)

lemma bmp_wall_src:
  assumes "bmp_name src_file"
  shows "bmp_name (wall_src_path src_file)"
proof -
  have "src_file \<noteq> []" using assms by (simp add: bmp_name_def)
  then show ?thesis
    using assms by (simp add: wall_src_path_def path_join_def bmp_name_join)
qed

lemma bmp_wall_dst:
  "dst_file \<noteq> [] \<Longrightarrow> \<not> bmp_name dst_file \<Longrightarrow> \<not> bmp_name (wall_dst_path sd dst_file)"
  by (simp add: wall_dst_path_def path_join_def bmp_name_join)

lemma bmp_enemy_src: "bmp_name (enemy_src_path prefix frame)"
  by (simp add: enemy_src_path_def path_join_def bmp_name_join enemy_src_file_def)
     (simp add: bmp_name_def)

lemma bmp_enemy_dst: "\<not> bmp_name (enemy_dst_path out_dir frame)"
  by (simp add: enemy_dst_path_def path_join_def bmp_name_join enemy_dst_file_def)
     (simp add: bmp_name_def)

lemma later_add_file:
  assumes "\<not> bmp_name path"
  shows "later w (w\<lparr>files := (files w)(path \<mapsto> c)\<rparr>)"
  using assms by (auto simp: later_def)

lemma ensure_dir_later:
  assumes "ensure_dir path w = (r, w')"
  shows "later w w'"
  using ensure_dir_result [OF assms] by (simp add: later_def)

lemma save_PNG_cases:
  assumes "save_PNG img path w = (r, w')"
  obtains (failed) e where "r = Inl e" "w' = w"
  | (saved) "r = Inr ()" "w' = w\<lparr>files := (files w)(path \<mapsto> Png img)\<rparr>"
  using assms by (auto simp: save_PNG_def split: if_splits)

lemma save_PNG_later:
  assumes "\<not> bmp_name path" "save_PNG img path w = (r, w')"
  shows "later w w' \<and> (r = Inr () \<longrightarrow> files w' path \<noteq> None)"
  using assms(2)
proof (cases rule: save_PNG_cases)
  case (failed e)
  then show ?thesis by (simp add: later_refl)
next
  case saved
  then show ?thesis using later_add_file [OF assms(1)] by simp
qed

lemma open_RGBA_file: "open_RGBA w p = Inr img \<Longrightarrow> files w p \<noteq> None"
  by (auto simp: open_RGBA_def split: option.splits if_splits)

lemma convert_wall_cases:
  assumes "convert_wall sd src_file dst_file w = (r, w')"
  obtains
    (skip) "\<not> exists_path w (wall_src_path src_file)" "r = Inr False"
      "w' = py_print (''  SKIP (not found): '' @ wall_src_path src_file) w"
  | (unopened) e where "exists_path w (wall_src_path src_file)" "r = Inl e" "w' = w"
  | (saving) img r1 w1 where "exists_path w (wall_src_path src_file)"
      "open_RGBA w (wall_src_path src_file) = Inr img"
      "save_PNG img (wall_dst_path sd dst_file) w = (r1, w1)"
      "(r1 = Inr () \<and> r = Inr True \<and> w' = py_print (''  OK '' @ src_file @ '' -> '' @ dst_file) w1)
       \<or> (\<exists>e. r1 = Inl e \<and> r = Inl e \<and> w' = w1)"
proof (cases "exists_path w (wall_src_path src_file)")
  case False
  then show ?thesis using assms skip by (simp add: convert_wall_missing)
next
  case True
  show ?thesis
  proof (cases "open_RGBA w (wall_src_path src_file)")
    case (Inl e)
    then have "convert_wall sd src_file dst_file w = (Inl e, w)"
      by (simp add: convert_wall_def Let_def True)
    then show ?thesis using True assms unopened by simp
  next
    case (Inr img)
    obtain r1 w1 where s: "save_PNG img (wall_dst_path sd dst_file) w = (r1, w1)"
      by (cases "save_PNG img (wall_dst_path sd dst_file) w")
    have "convert_wall sd src_file dst_file w = (case r1 of Inl e \<Rightarrow> (Inl e, w1)
            | Inr u \<Rightarrow> (Inr True, py_print (''  OK '' @ src_file @ '' -> '' @ dst_file) w1))"
      by (simp add: convert_wall_def Let_def True Inr s split: sum.splits)
    then have "(r, w') = (case r1 of Inl e \<Rightarrow> (Inl e, w1)
            | Inr u \<Rightarrow> (Inr True, py_print (''  OK '' @ src_file @ '' -> '' @ dst_file) w1))"
      unfolding assms .
    then have "(r1 = Inr () \<and> r = Inr True \<and> w' = py_print (''  OK '' @ src_file @ '' -> '' @ dst_file) w1)
       \<or> (\<exists>e. r1 = Inl e \<and> r = Inl e \<and> w' = w1)"
      by (cases r1) simp_all
    then show ?thesis using True Inr s saving by blast
  qed
qed

lemma convert_wall_later:
  assumes "\<not> bmp_name (wall_dst_path sd dst_file)"
    and "convert_wall sd src_file dst_file w = (r, w')"
  shows "later w w'"
  using assms(2)
proof (cases rule: convert_wall_cases)
  case skip
  then show ?thesis by (simp add: later_print)
next
  case (unopened e)
  then show ?thesis by (simp add: later_refl)
next
  case (saving img r1 w1)
  have "later w w1" using save_PNG_later [OF assms(1) saving(3)] by simp
  then show ?thesis using saving(4) later_print later_trans by blast
qed

lemma convert_wall_ok:
  assumes "convert_wall sd src_file dst_file w = (Inr ok, w')"
  shows "ok = exists_path w (wall_src_path src_file) \<and>
         (ok \<longrightarrow> files w (wall_src_path src_file) \<noteq> None \<and>
                 files w' (wall_dst_path sd dst_file) \<noteq> None)"
  using assms
proof (cases rule: convert_wall_cases)
  case skip
  then show ?thesis by simp
next
  case (unopened e)
  then show ?thesis by simp
next
  case (saving img r1 w1)
  then have s: "r1 = Inr ()" "ok = True"
    "w' = py_print (''  OK '' @ src_file @ '' -> '' @ dst_file) w1" by auto
  from saving(3) have "files w1 (wall_dst_path sd dst_file) \<noteq> None"
    using s(1) by (cases rule: save_PNG_cases) simp_all
  then show ?thesis
    using s saving(1) open_RGBA_file [OF saving(2)] by simp
qed

lemma convert_enemy_cases:
  assumes "convert_enemy src_path dst_path w = (r, w')"
  obtains
    (skip) "\<not> exists_path w src_path" "r = Inr False"
      "w' = py_print (''  SKIP (not found): '' @ src_path) w"
  | (unopened) e where "exists_path w src_path" "r = Inl e" "w' = w"
  | (saving) img img' r1 where "exists_path w src_path"
      "open_RGBA w src_path = Inr img" "colorkey img = Inr img'"
      "save_PNG img' dst_path w = (r1, w')"
      "(r1 = Inr () \<and> r = Inr True) \<or> (\<exists>e. r1 = Inl e \<and> r = Inl e)"
proof (cases "exists_path w src_path")
  case False
  then show ?thesis using assms skip by (simp add: convert_enemy_missing)
next
  case True
  show ?thesis
  proof (cases "open_RGBA w src_path")
    case (Inl e)
    then have "convert_enemy src_path dst_path w = (Inl e, w)"
      by (simp add: convert_enemy_def True)
    then show ?thesis using True assms unopened by simp
  next
    case (Inr img)
    show ?thesis
    proof (cases "colorkey img")
      case (Inl e)
      then have "convert_enemy src_path dst_path w = (Inl e, w)"
        by (simp add: convert_enemy_def True Inr)
      then show ?thesis using True assms unopened by simp
    next
      case ck: (Inr img')
      obtain r1 w1 where s: "save_PNG img' dst_path w = (r1, w1)"
        by (cases "save_PNG img' dst_path w")
      have "convert_enemy src_path dst_path w =
              (case r1 of Inl e \<Rightarrow> (Inl e, w1) | Inr u \<Rightarrow> (Inr True, w1))"
        by (simp add: convert_enemy_def True Inr ck s split: sum.splits)
      then have "(r, w') = (case r1 of Inl e \<Rightarrow> (Inl e, w1) | Inr u \<Rightarrow> (Inr True, w1))"
        unfolding assms .
      then have "w' = w1" "(r1 = Inr () \<and> r = Inr True) \<or> (\<exists>e. r1 = Inl e \<and> r = Inl e)"
        by (cases r1; simp)+
      then show ?thesis using True Inr ck s saving by blast
    qed
  qed
qed

lemma convert_enemy_later:
  assumes "\<not> bmp_name dst_path"
    and "convert_enemy src_path dst_path w = (r, w')"
  shows "later w w'"
  using assms(2)
proof (cases rule: convert_enemy_cases)
  case skip
  then show ?thesis by (simp add: later_print)
next
  case (unopened e)
  then show ?thesis by (simp add: later_refl)
next
  case (saving img img' r1)
  then show ?thesis using save_PNG_later [OF assms(1) saving(4)] by simp
qed

lemma convert_enemy_ok:
  assumes "convert_enemy src_path dst_path w = (Inr ok, w')"
  shows "ok = exists_path w src_path \<and>
         (ok \<longrightarrow> files w src_path \<noteq> None \<and> files w' dst_path \<noteq> None)"
  using assms
proof (cases rule: convert_enemy_cases)
  case skip
  then show ?thesis by simp
next
  case (unopened e)
  then show ?thesis by simp
next
  case (saving img img' r1)
  then have s: "r1 = Inr ()" "ok = True" by auto
  from saving(4) have "files w' dst_path \<noteq> None"
    using s(1) by (cases rule: save_PNG_cases) simp_all
  then show ?thesis
    using s saving(1) open_RGBA_file [OF saving(2)] by simp
qed

section \<open>The loops count the sources that were present at the start\<close>

lemma walls_present_Cons:
  "walls_present w0 ((s, d) # items) =
     (if exists_path w0 (wall_src_path s) then 1 else 0) + walls_present w0 items"
  by (simp add: walls_present_def)

lemma frames_present_Cons:
  "frames_present w0 prefix (f # frames) =
     (if exists_path w0 (enemy_src_path prefix f) then 1 else 0) + frames_present w0 prefix frames"
  by (simp add: frames_present_def)

lemma wall_loop_run:
  assumes "\<forall>(s, d) \<in> set items. bmp_name s \<and> d \<noteq> [] \<and> \<not> bmp_name d"
    and "later w0 w"
    and "wall_loop sd items c w = (r, w')"
  shows "later w w' \<and>
         (\<forall>c'. r = Inr c' \<longrightarrow> c' = c + walls_present w0 items \<and>
            (\<forall>(s, d) \<in> set items. exists_path w0 (wall_src_path s) \<longrightarrow>
               files w' (wall_dst_path sd d) \<noteq> None))"
  using assms
proof (induction items arbitrary: c w)
  case Nil
  then show ?case by (auto simp: later_refl walls_present_def)
next
  case (Cons it items)
  obtain s d where it: "it = (s, d)" by (cases it)
  have sd: "bmp_name s" "d \<noteq> []" "\<not> bmp_name d"
    and rest: "\<forall>(s, d) \<in> set items. bmp_name s \<and> d \<noteq> [] \<and> \<not> bmp_name d"
    using Cons.prems(1) it by auto
  obtain r1 w1 where cw: "convert_wall sd s d w = (r1, w1)"
    by (cases "convert_wall sd s d w")
  have l1: "later w w1"
    using convert_wall_later [OF bmp_wall_dst [OF sd(2,3)] cw] .
  show ?case
  proof (cases r1)
    case (Inl e)
    then have "r = Inl e" "w' = w1" using Cons.prems(3) it cw by simp_all
    then show ?thesis using l1 by simp
  next
    case (Inr ok)
    let ?c1 = "if ok then c + 1 else c"
    have loop: "wall_loop sd items ?c1 w1 = (r, w')"
      using Cons.prems(3) it cw Inr by simp
    have l01: "later w0 w1" using Cons.prems(2) l1 by (rule later_trans)
    note ih = Cons.IH [OF rest l01 loop]
    note k = convert_wall_ok [of sd s d w ok w1]
    have ok: "ok = exists_path w0 (wall_src_path s)"
      using present_later [OF Cons.prems(2) bmp_wall_src [OF sd(1)], of ok] k cw Inr by simp
    have wr: "ok \<longrightarrow> files w1 (wall_dst_path sd d) \<noteq> None"
      using k cw Inr by simp
    have l: "later w w'" using l1 ih later_trans by blast
    show ?thesis
    proof (intro conjI allI impI)
      show "later w w'" by (rule l)
    next
      fix c' assume rc: "r = Inr c'"
      show "c' = c + walls_present w0 (it # items)"
        using ih rc ok by (simp add: it walls_present_Cons)
      have "exists_path w0 (wall_src_path s) \<longrightarrow> files w' (wall_dst_path sd d) \<noteq> None"
        using ok wr ih later_files by blast
      moreover have "\<forall>(s, d) \<in> set items. exists_path w0 (wall_src_path s) \<longrightarrow>
               files w' (wall_dst_path sd d) \<noteq> None"
        using ih rc by simp
      ultimately show "\<forall>(s, d) \<in> set (it # items). exists_path w0 (wall_src_path s) \<longrightarrow>
               files w' (wall_dst_path sd d) \<noteq> None"
        by (simp add: it)
    qed
  qed
qed

lemma frame_loop_run:
  assumes "later w0 w"
    and "frame_loop prefix out_dir frames c w = (r, w')"
  shows "later w w' \<and>
         (\<forall>c'. r = Inr c' \<longrightarrow> c' = c + frames_present w0 prefix frames \<and>
            (\<forall>f \<in> set frames. exists_path w0 (enemy_src_path prefix f) \<longrightarrow>
               files w' (enemy_dst_path out_dir f) \<noteq> None))"
  using assms
proof (induction frames arbitrary: c w)
  case Nil
  then show ?case by (auto simp: later_refl frames_present_def)
next
  case (Cons f frames)
  let ?src = "enemy_src_path prefix f" and ?dst = "enemy_dst_path out_dir f"
  obtain r1 w1 where ce: "convert_enemy ?src ?dst w = (r1, w1)"
    by (cases "convert_enemy ?src ?dst w")
  have l1: "later w w1"
    using convert_enemy_later [OF bmp_enemy_dst ce] .
  show ?case
  proof (cases r1)
    case (Inl e)
    then have "r = Inl e" "w' = w1" using Cons.prems(2) ce by simp_all
    then show ?thesis using l1 by simp
  next
    case (Inr ok)
    let ?c1 = "if ok then c + 1 else c"
    have loop: "frame_loop prefix out_dir frames ?c1 w1 = (r, w')"
      using Cons.prems(2) ce Inr by simp
    have l01: "later w0 w1" using Cons.prems(1) l1 by (rule later_trans)
    note ih = Cons.IH [OF l01 loop]
    note k = convert_enemy_ok [of ?src ?dst w ok w1]
    have ok: "ok = exists_path w0 ?src"
      using present_later [OF Cons.prems(1) bmp_enemy_src, of ok prefix f] k ce Inr by simp
    have wr: "ok \<longrightarrow> files w1 ?dst \<noteq> None"
      using k ce Inr by simp
    have l: "later w w'" using l1 ih later_trans by blast
    show ?thesis
    proof (intro conjI allI impI)
      show "later w w'" by (rule l)
    next
      fix c' assume rc: "r = Inr c'"
      show "c' = c + frames_present w0 prefix (f # frames)"
        using ih rc ok by (simp add: frames_present_Cons)
      have "exists_path w0 ?src \<longrightarrow> files w' ?dst \<noteq> None"
        using ok wr ih later_files by blast
      moreover have "\<forall>g \<in> set frames. exists_path w0 (enemy_src_path prefix g) \<longrightarrow>
               files w' (enemy_dst_path out_dir g) \<noteq> None"
        using ih rc by simp
      ultimately show "\<forall>g \<in> set (f # frames). exists_path w0 (enemy_src_path prefix g) \<longrightarrow>
               files w' (enemy_dst_path out_dir g) \<noteq> None"
        by simp
    qed
  qed
qed

lemma enemy_loop_head:
  "enemy_loop sd ((prefix, dirname, frames) # rest) c w =
     (case ensure_dir (enemy_out_dir sd dirname) w of
        (Inl e, w1) \<Rightarrow> (Inl e, w1)
      | (Inr u, w1) \<Rightarrow>
          (case frame_loop prefix (enemy_out_dir sd dirname) frames c w1 of
             (Inl e, w2) \<Rightarrow> (Inl e, w2)
           | (Inr c', w2) \<Rightarrow>
               enemy_loop sd rest c'
                 (py_print (''  OK '' @ prefix @ '': '' @ str_nat (length frames) @
                            '' frames -> '' @ dirname @ ''/'') w2)))"
  by (simp add: Let_def)

lemma enemy_out_dir_split:
  assumes "plain_name dirname"
  shows "path_split (enemy_out_dir sd dirname) = (join_step (DST sd) ''enemies'', dirname)"
proof -
  have "join_step (DST sd) ''enemies'' \<noteq> [] \<and> last (join_step (DST sd) ''enemies'') = CHR ''s''"
    using join_step_last [of "''enemies''" "DST sd"] by simp
  then have a: "join_step (DST sd) ''enemies'' \<noteq> []" "last (join_step (DST sd) ''enemies'') \<noteq> CHR ''/''"
    by simp_all
  have "enemy_out_dir sd dirname = join_step (join_step (DST sd) ''enemies'') dirname"
    by (simp add: enemy_out_dir_def path_join_def)
  then show ?thesis using path_split_join(2) [OF a assms] by simp
qed

lemma walls_dir_split: "path_split (walls_dir sd) = (DST sd, ''walls'')"
proof -
  have a: "DST sd \<noteq> []" "last (DST sd) \<noteq> CHR ''/''"
    using DST_last [of sd] by simp_all
  have "plain_name ''walls''" by (simp add: plain_name_def)
  from path_split_join(2) [OF a this] show ?thesis
    by (simp add: walls_dir_def path_join_def)
qed

lemma enemy_loop_cases:
  assumes "enemy_loop sd ((p, d, fs) # rest) c w = (r, w')"
  obtains
    (nodir) e where "ensure_dir (enemy_out_dir sd d) w = (Inl e, w')" "r = Inl e"
  | (stopped) u w1 e where "ensure_dir (enemy_out_dir sd d) w = (Inr u, w1)"
      "frame_loop p (enemy_out_dir sd d) fs c w1 = (Inl e, w')" "r = Inl e"
  | (next_cat) u w1 c2 w2 where "ensure_dir (enemy_out_dir sd d) w = (Inr u, w1)"
      "frame_loop p (enemy_out_dir sd d) fs c w1 = (Inr c2, w2)"
      "enemy_loop sd rest c2
         (py_print (''  OK '' @ p @ '': '' @ str_nat (length fs) @
                    '' frames -> '' @ d @ ''/'') w2) = (r, w')"
proof -
  obtain r1 w1 where e: "ensure_dir (enemy_out_dir sd d) w = (r1, w1)"
    by (cases "ensure_dir (enemy_out_dir sd d) w")
  obtain r2 w2 where f: "frame_loop p (enemy_out_dir sd d) fs c w1 = (r2, w2)"
    by (cases "frame_loop p (enemy_out_dir sd d) fs c w1")
  show thesis
  proof (cases r1)
    case (Inl e1)
    have "enemy_loop sd ((p, d, fs) # rest) c w = (Inl e1, w1)"
      by (simp add: enemy_loop_head e Inl)
    then have "r = Inl e1" "w' = w1" unfolding assms by simp_all
    then show ?thesis using e Inl by (intro nodir [of e1]) simp_all
  next
    case i1: (Inr u)
    show ?thesis
    proof (cases r2)
      case (Inl e2)
      have "enemy_loop sd ((p, d, fs) # rest) c w = (Inl e2, w2)"
        by (simp add: enemy_loop_head e i1 f Inl)
      then have "r = Inl e2" "w' = w2" unfolding assms by simp_all
      then show ?thesis using e i1 f Inl by (intro stopped [of u w1 e2]) simp_all
    next
      case (Inr c2)
      have "enemy_loop sd ((p, d, fs) # rest) c w =
          enemy_loop sd rest c2
            (py_print (''  OK '' @ p @ '': '' @ str_nat (length fs) @
                    '' frames -> '' @ d @ ''/'') w2)"
        by (simp add: enemy_loop_head e i1 f Inr)
      then have "enemy_loop sd rest c2
            (py_print (''  OK '' @ p @ '': '' @ str_nat (length fs) @
                    '' frames -> '' @ d @ ''/'') w2) = (r, w')"
        unfolding assms by simp
      then show ?thesis using e i1 f Inr by (intro next_cat [of u w1 c2 w2]) simp_all
    qed
  qed
qed

lemma enemy_loop_run:
  assumes "\<forall>(p, d, fs) \<in> set cats. plain_name d"
    and "later w0 w"
    and "enemy_loop sd cats c w = (r, w')"
  shows "later w w' \<and>
         (\<forall>c'. r = Inr c' \<longrightarrow> c' = c + enemies_present w0 cats \<and>
            (\<forall>(p, d, fs) \<in> set cats. enemy_out_dir sd d \<in> dirs w' \<and>
               (\<forall>f \<in> set fs. exists_path w0 (enemy_src_path p f) \<longrightarrow>
                  files w' (enemy_dst_path (enemy_out_dir sd d) f) \<noteq> None)))"
  using assms
proof (induction cats arbitrary: c w)
  case Nil
  then show ?case by (auto simp: later_refl enemies_present_def)
next
  case (Cons cat cats)
  obtain p d fs where cat: "cat = (p, d, fs)" by (cases cat)
  let ?od = "enemy_out_dir sd d"
  have d: "plain_name d" and rest: "\<forall>(p, d, fs) \<in> set cats. plain_name d"
    using Cons.prems(1) cat by auto
  from Cons.prems(3) [unfolded cat] show ?case
  proof (cases rule: enemy_loop_cases)
    case (nodir e)
    then show ?thesis using ensure_dir_later by simp
  next
    case (stopped u w1 e)
    have l1: "later w w1" using stopped(1) by (rule ensure_dir_later)
    have "later w1 w'"
      using frame_loop_run [OF later_trans [OF Cons.prems(2) l1] stopped(2)] by simp
    then show ?thesis using l1 stopped(3) later_trans by blast
  next
    case (next_cat u w1 c2 w2)
    let ?w3 = "py_print (''  OK '' @ p @ '': '' @ str_nat (length fs) @
                            '' frames -> '' @ d @ ''/'') w2"
    have l1: "later w w1" using next_cat(1) by (rule ensure_dir_later)
    have l01: "later w0 w1" using Cons.prems(2) l1 by (rule later_trans)
    note fr = frame_loop_run [OF l01 next_cat(2)]
    have l2: "later w w2" using l1 fr later_trans by blast
    have l3: "later w ?w3" using l2 later_print later_trans by blast
    have l03: "later w0 ?w3" using Cons.prems(2) l3 by (rule later_trans)
    note ih = Cons.IH [OF rest l03 next_cat(3)]
    have l: "later w w'" using l3 ih later_trans by blast
    have "?od \<in> dirs w1"
      using ensure_dir_success [OF next_cat(1) enemy_out_dir_split [OF d] d] .
    moreover have "later w1 w2" using fr by simp
    ultimately have "?od \<in> dirs w2" by (intro later_dirs [of w1 w2])
    then have "?od \<in> dirs ?w3" by simp
    then have od: "?od \<in> dirs w'" using ih later_dirs by blast
    have hdf: "\<forall>f \<in> set fs. exists_path w0 (enemy_src_path p f) \<longrightarrow>
                  files w' (enemy_dst_path ?od f) \<noteq> None"
    proof (intro ballI impI)
      fix f assume "f \<in> set fs" "exists_path w0 (enemy_src_path p f)"
      then have "files w2 (enemy_dst_path ?od f) \<noteq> None" using fr by simp
      then have "files ?w3 (enemy_dst_path ?od f) \<noteq> None" by simp
      then show "files w' (enemy_dst_path ?od f) \<noteq> None"
        using ih later_files by blast
    qed
    show ?thesis
    proof (intro conjI allI impI)
      show "later w w'" by (rule l)
    next
      fix c' assume rc: "r = Inr c'"
      have "c2 = c + frames_present w0 p fs" using fr by simp
      then show "c' = c + enemies_present w0 (cat # cats)"
        using ih rc by (simp add: enemies_present_def cat)
      have "\<forall>(p, d, fs) \<in> set cats. enemy_out_dir sd d \<in> dirs w' \<and>
               (\<forall>f \<in> set fs. exists_path w0 (enemy_src_path p f) \<longrightarrow>
                  files w' (enemy_dst_path (enemy_out_dir sd d) f) \<noteq> None)"
        using ih rc by simp
      then show "\<forall>(p, d, fs) \<in> set (cat # cats). enemy_out_dir sd d \<in> dirs w' \<and>
               (\<forall>f \<in> set fs. exists_path w0 (enemy_src_path p f) \<longrightarrow>
                  files w' (enemy_dst_path (enemy_out_dir sd d) f) \<noteq> None)"
        using od hdf by (simp add: cat)
    qed
  qed
qed

section \<open>The tables and the phases of \<^verbatim>\<open>main\<close>\<close>

lemma WALL_MAP_names: "\<forall>(s, d) \<in> set WALL_MAP. bmp_name s \<and> d \<noteq> [] \<and> \<not> bmp_name d"
  by (simp add: WALL_MAP_def bmp_name_def)

lemma ENEMIES_names: "\<forall>(p, d, fs) \<in> set ENEMIES. plain_name d"
  by (simp add: ENEMIES_def plain_name_def)

lemma WALL_MAP_length: "length WALL_MAP = 10"
  by (simp add: WALL_MAP_def)

lemma ENEMIES_frames: "sum_list (map (\<lambda>(p, d, fs). length fs) ENEMIES) = 59"
  by (simp add: ENEMIES_def)

lemma walls_present_le: "walls_present w items \<le> length items"
  by (simp add: walls_present_def)

lemma enemies_present_le:
  "enemies_present w cats \<le> sum_list (map (\<lambda>(p, d, fs). length fs) cats)"
  unfolding enemies_present_def
  by (induction cats) (auto simp: frames_present_def intro: add_mono)

lemma main_walls_cases:
  assumes "main_walls sd w = (r, w')"
  obtains
    (nodir) e where
      "ensure_dir (walls_dir sd) (py_print ''Converting wall textures...'' w) = (Inl e, w')"
      "r = Inl e"
  | (stopped) u w1 e where
      "ensure_dir (walls_dir sd) (py_print ''Converting wall textures...'' w) = (Inr u, w1)"
      "wall_loop sd WALL_MAP 0 w1 = (Inl e, w')" "r = Inl e"
  | (counted) u w1 c w2 where
      "ensure_dir (walls_dir sd) (py_print ''Converting wall textures...'' w) = (Inr u, w1)"
      "wall_loop sd WALL_MAP 0 w1 = (Inr c, w2)" "r = Inr c"
      "w' = py_print (''  '' @ str_nat c @ '' wall textures converted.'' @ [CHR 0x0A]) w2"
proof -
  let ?w0 = "py_print ''Converting wall textures...'' w"
  obtain r1 w1 where e: "ensure_dir (walls_dir sd) ?w0 = (r1, w1)"
    by (cases "ensure_dir (walls_dir sd) ?w0")
  obtain r2 w2 where l: "wall_loop sd WALL_MAP 0 w1 = (r2, w2)"
    by (cases "wall_loop sd WALL_MAP 0 w1")
  show thesis
  proof (cases r1)
    case (Inl e1)
    have "main_walls sd w = (Inl e1, w1)"
      by (simp add: main_walls_def e Inl)
    then have "r = Inl e1" "w' = w1" unfolding assms by simp_all
    then show ?thesis using e Inl by (intro nodir [of e1]) simp_all
  next
    case i1: (Inr u)
    show ?thesis
    proof (cases r2)
      case (Inl e2)
      have "main_walls sd w = (Inl e2, w2)"
        by (simp add: main_walls_def e i1 l Inl)
      then have "r = Inl e2" "w' = w2" unfolding assms by simp_all
      then show ?thesis using e i1 l Inl by (intro stopped [of u w1 e2]) simp_all
    next
      case (Inr c)
      have "main_walls sd w =
          (Inr c, py_print (''  '' @ str_nat c @ '' wall textures converted.'' @ [CHR 0x0A]) w2)"
        by (simp add: main_walls_def e i1 l Inr)
      then have "r = Inr c"
        "w' = py_print (''  '' @ str_nat c @ '' wall textures converted.'' @ [CHR 0x0A]) w2"
        unfolding assms by simp_all
      then show ?thesis using e i1 l Inr by (intro counted [of u w1 c w2]) simp_all
    qed
  qed
qed

lemma main_walls_run:
  assumes "main_walls sd w = (r, w')"
  shows "later w w' \<and>
         (\<forall>c. r = Inr c \<longrightarrow>
            c = walls_present w WALL_MAP \<and> walls_dir sd \<in> dirs w' \<and>
            (\<forall>(s, d) \<in> set WALL_MAP. exists_path w (wall_src_path s) \<longrightarrow>
               files w' (wall_dst_path sd d) \<noteq> None))"
  using assms
proof (cases rule: main_walls_cases)
  case (nodir e)
  then show ?thesis using ensure_dir_later later_print later_trans by blast
next
  case (stopped u w1 e)
  have l1: "later w w1"
    using later_print ensure_dir_later [OF stopped(1)] later_trans by blast
  have "later w1 w'" using wall_loop_run [OF WALL_MAP_names l1 stopped(2)] by simp
  then show ?thesis using l1 stopped(3) later_trans by blast
next
  case (counted u w1 c w2)
  have l1: "later w w1"
    using later_print ensure_dir_later [OF counted(1)] later_trans by blast
  note wr = wall_loop_run [OF WALL_MAP_names l1 counted(2)]
  have l2: "later w w2" using l1 wr later_trans by blast
  have "plain_name ''walls''" by (simp add: plain_name_def)
  then have "walls_dir sd \<in> dirs w1"
    using ensure_dir_success [OF counted(1) walls_dir_split] by simp
  moreover have "later w1 w2" using wr by simp
  ultimately have "walls_dir sd \<in> dirs w2" by (intro later_dirs [of w1 w2])
  then have wd: "walls_dir sd \<in> dirs w'" using counted(4) by simp
  have fl: "\<forall>(s, d) \<in> set WALL_MAP. exists_path w (wall_src_path s) \<longrightarrow>
               files w' (wall_dst_path sd d) \<noteq> None"
    using wr counted(4) by simp
  have "later w w'" using l2 counted(4) later_print later_trans by blast
  then show ?thesis using counted(3) wr wd fl by simp
qed

lemma main_enemies_run:
  assumes "later w0 w" "main_enemies sd w = (r, w')"
  shows "later w w' \<and>
         (\<forall>c. r = Inr c \<longrightarrow>
            c = enemies_present w0 ENEMIES \<and>
            (\<forall>(p, d, fs) \<in> set ENEMIES. enemy_out_dir sd d \<in> dirs w' \<and>
               (\<forall>f \<in> set fs. exists_path w0 (enemy_src_path p f) \<longrightarrow>
                  files w' (enemy_dst_path (enemy_out_dir sd d) f) \<noteq> None)))"
proof -
  let ?w1 = "py_print ''Converting enemy sprites...'' w"
  obtain r1 w2 where el: "enemy_loop sd ENEMIES 0 ?w1 = (r1, w2)"
    by (cases "enemy_loop sd ENEMIES 0 ?w1")
  have l01: "later w0 ?w1" using assms(1) later_print later_trans by blast
  note er = enemy_loop_run [OF ENEMIES_names l01 el]
  have l2: "later w w2" using later_print er later_trans by blast
  show ?thesis
  proof (cases r1)
    case (Inl e)
    have "main_enemies sd w = (Inl e, w2)" by (simp add: main_enemies_def el Inl)
    then have "r = Inl e" "w' = w2" unfolding assms(2) by simp_all
    then show ?thesis using l2 by simp
  next
    case (Inr c1)
    let ?w3 = "py_print (''  '' @ str_nat c1 @ '' enemy sprites converted.'' @ [CHR 0x0A]) w2"
    have "main_enemies sd w = (Inr c1, ?w3)" by (simp add: main_enemies_def el Inr)
    then have res: "r = Inr c1" "w' = ?w3" unfolding assms(2) by simp_all
    have c1: "c1 = enemies_present w0 ENEMIES" using er Inr by simp
    have fl: "\<forall>(p, d, fs) \<in> set ENEMIES. enemy_out_dir sd d \<in> dirs w' \<and>
               (\<forall>f \<in> set fs. exists_path w0 (enemy_src_path p f) \<longrightarrow>
                  files w' (enemy_dst_path (enemy_out_dir sd d) f) \<noteq> None)"
      using er Inr res by simp
    have "later w w'" using l2 res later_print later_trans by blast
    then show ?thesis using res c1 fl by simp
  qed
qed

lemma main_run:
  assumes "main sd w = (Inr (), w')"
  shows "later w w' \<and> console w' \<noteq> [] \<and>
         last (console w') = done_line (walls_present w WALL_MAP) (enemies_present w ENEMIES) \<and>
         walls_dir sd \<in> dirs w' \<and>
         (\<forall>(s, d) \<in> set WALL_MAP. exists_path w (wall_src_path s) \<longrightarrow>
            files w' (wall_dst_path sd d) \<noteq> None) \<and>
         (\<forall>(p, d, fs) \<in> set ENEMIES. enemy_out_dir sd d \<in> dirs w' \<and>
            (\<forall>f \<in> set fs. exists_path w (enemy_src_path p f) \<longrightarrow>
               files w' (enemy_dst_path (enemy_out_dir sd d) f) \<noteq> None))"
proof -
  let ?w0 = "py_print (''=== Wolf3D BMP -> PNG Converter ==='' @ [CHR 0x0A]) w"
  obtain r1 w1 where mw: "main_walls sd ?w0 = (r1, w1)"
    by (cases "main_walls sd ?w0")
  obtain r2 w2 where me: "main_enemies sd w1 = (r2, w2)"
    by (cases "main_enemies sd w1")
  have u: "main sd w =
     (case r1 of Inl e \<Rightarrow> (Inl e, w1)
      | Inr wall_count \<Rightarrow>
          (case r2 of Inl e \<Rightarrow> (Inl e, w2)
           | Inr enemy_count \<Rightarrow> (Inr (), py_print (done_line wall_count enemy_count) w2)))"
    using mw me by (simp add: main_def split: sum.splits)
  obtain wc where r1: "r1 = Inr wc"
    using u assms by (cases r1) simp_all
  obtain ec where r2: "r2 = Inr ec"
    using u assms r1 by (cases r2) simp_all
  have res: "w' = py_print (done_line wc ec) w2"
    using u assms r1 r2 by simp
  note a = main_walls_run [OF mw]
  have l1: "later w w1" using later_print a later_trans by blast
  note b = main_enemies_run [OF l1 me]
  have l2: "later w1 w2" using b by simp
  have l3: "later w2 w'" using res later_print by simp
  have l: "later w w'" using l1 l2 l3 later_trans by blast
  have wc: "wc = walls_present w WALL_MAP"
    using a r1 by (simp add: walls_present_def)
  have ec: "ec = enemies_present w ENEMIES"
    using b r2 by simp
  have "walls_dir sd \<in> dirs w1" using a r1 by simp
  then have wd: "walls_dir sd \<in> dirs w'"
    using l2 l3 later_dirs by blast
  have wf: "\<forall>(s, d) \<in> set WALL_MAP. exists_path w (wall_src_path s) \<longrightarrow>
            files w' (wall_dst_path sd d) \<noteq> None"
  proof (intro ballI, clarify)
    fix s d assume m: "(s, d) \<in> set WALL_MAP" and ex: "exists_path w (wall_src_path s)"
    have "exists_path ?w0 (wall_src_path s)" using ex by simp
    then have "files w1 (wall_dst_path sd d) \<noteq> None" using a r1 m by auto
    then have "files w' (wall_dst_path sd d) \<noteq> None"
      using l2 l3 later_files by blast
    then show "\<exists>y. files w' (wall_dst_path sd d) = Some y" by simp
  qed
  have ef: "\<forall>(p, d, fs) \<in> set ENEMIES. enemy_out_dir sd d \<in> dirs w' \<and>
            (\<forall>f \<in> set fs. exists_path w (enemy_src_path p f) \<longrightarrow>
               files w' (enemy_dst_path (enemy_out_dir sd d) f) \<noteq> None)"
    using b r2 res by simp
  show ?thesis
    using l wc ec wd wf ef res by simp
qed

lemma walls_missing_count:
  assumes "\<forall>(s, d) \<in> set items. \<not> exists_path w (wall_src_path s)"
  shows "walls_present w items = 0"
  using assms by (auto simp: walls_present_def filter_empty_conv)

lemma enemies_missing_count:
  assumes "\<forall>(p, d, fs) \<in> set cats. \<forall>f \<in> set fs. \<not> exists_path w (enemy_src_path p f)"
  shows "enemies_present w cats = 0"
  using assms by (auto simp: enemies_present_def frames_present_def filter_empty_conv)

lemma enemy_loop_dir_first:
  assumes "plain_name d"
    and "\<forall>(p, d, fs) \<in> set rest. plain_name d"
    and "enemy_loop sd ((p, d, fs) # rest) c w = (r, w')"
  shows "enemy_out_dir sd d \<in> dirs w' \<or>
         (\<exists>e. r = Inl e \<and> ensure_dir (enemy_out_dir sd d) w = (Inl e, w'))"
  using assms(3)
proof (cases rule: enemy_loop_cases)
  case (nodir e)
  then show ?thesis by simp
next
  case (stopped u w1 e)
  have "enemy_out_dir sd d \<in> dirs w1"
    using ensure_dir_success [OF stopped(1) enemy_out_dir_split [OF assms(1)] assms(1)] .
  moreover have "later w1 w'"
    using frame_loop_run [OF later_refl stopped(2)] by simp
  ultimately show ?thesis using later_dirs by blast
next
  case (next_cat u w1 c2 w2)
  let ?w3 = "py_print (''  OK '' @ p @ '': '' @ str_nat (length fs) @
                            '' frames -> '' @ d @ ''/'') w2"
  have "enemy_out_dir sd d \<in> dirs w1"
    using ensure_dir_success [OF next_cat(1) enemy_out_dir_split [OF assms(1)] assms(1)] .
  moreover have "later w1 w2"
    using frame_loop_run [OF later_refl next_cat(2)] by simp
  ultimately have "enemy_out_dir sd d \<in> dirs w2" by (intro later_dirs [of w1 w2])
  then have "enemy_out_dir sd d \<in> dirs ?w3" by simp
  moreover have "later ?w3 w'"
    using enemy_loop_run [OF assms(2) later_refl next_cat(3)] by simp
  ultimately show ?thesis using later_dirs by blast
qed

lemma main_walls_dir_first:
  assumes "main_walls sd w = (r, w')"
  shows "walls_dir sd \<in> dirs w' \<or>
         (\<exists>e. r = Inl e \<and>
              ensure_dir (walls_dir sd) (py_print ''Converting wall textures...'' w) = (Inl e, w'))"
  using assms
proof (cases rule: main_walls_cases)
  case (nodir e)
  then show ?thesis by simp
next
  case (stopped u w1 e)
  have "plain_name ''walls''" by (simp add: plain_name_def)
  then have "walls_dir sd \<in> dirs w1"
    using ensure_dir_success [OF stopped(1) walls_dir_split] by simp
  moreover have "later w1 w'"
    using wall_loop_run [OF WALL_MAP_names later_refl stopped(2)] by simp
  ultimately show ?thesis using later_dirs by blast
next
  case (counted u w1 c w2)
  then show ?thesis using main_walls_run [OF assms] by simp
qed

section \<open>Runs on the concrete worlds\<close>

lemma small_run: "fst (main repo_scripts small_world) = Inr ()"
  by code_simp

lemma small_present:
  "walls_present small_world WALL_MAP = 1" "enemies_present small_world ENEMIES = 1"
  by code_simp+

lemma bare_run: "fst (main repo_scripts bare_world) = Inr ()"
  by code_simp

lemma bare_missing: "bmp_name p \<Longrightarrow> \<not> exists_path bare_world p"
  by (auto simp: exists_path_def isdir_bmp bare_world_def bmp_name_def)

lemma junk_run:
  "fst (main repo_scripts junk_world) = Inl UnidentifiedImageError"
  "walls_dir repo_scripts \<in> dirs (snd (main repo_scripts junk_world))"
  "enemy_out_dir repo_scripts ''guard'' \<notin> dirs (snd (main repo_scripts junk_world))"
  "enemy_out_dir repo_scripts ''officer'' \<notin> dirs (snd (main repo_scripts junk_world))"
  "enemy_out_dir repo_scripts ''ss'' \<notin> dirs (snd (main repo_scripts junk_world))"
  "enemy_out_dir repo_scripts ''mutant'' \<notin> dirs (snd (main repo_scripts junk_world))"
  by code_simp+

lemma small_walls_run:
  "fst (main_walls repo_scripts small_world) = Inr 1"
  "files (snd (main_walls repo_scripts small_world)) (wall_dst_path repo_scripts ''wall_0.png'') =
     Some (Png \<lparr>size_w = 1, size_h = 2, data = [(112, 112, 112, 255), (96, 96, 96, 255)]\<rparr>)"
  "enemy_out_dir repo_scripts ''guard'' \<notin> dirs (snd (main_walls repo_scripts small_world))"
  by code_simp+

lemma out_dirs:
  "walls_dir repo_scripts = ''/repo/scripts/../public/assets/walls''"
  "enemy_out_dir repo_scripts ''guard'' = ''/repo/scripts/../public/assets/enemies/guard''"
  "enemy_out_dir repo_scripts ''officer'' = ''/repo/scripts/../public/assets/enemies/officer''"
  "enemy_out_dir repo_scripts ''ss'' = ''/repo/scripts/../public/assets/enemies/ss''"
  "enemy_out_dir repo_scripts ''mutant'' = ''/repo/scripts/../public/assets/enemies/mutant''"
  by (simp_all add: walls_dir_def enemy_out_dir_def DST_def path_join_def join_step_def
      repo_scripts_def)

section \<open>Claims about the counters and the directories\<close>

text \<open>
  Claim C8 (counter bounds). In every run that reaches the final report, the reported
  wall count is the number of entries of \<^verbatim>\<open>WALL_MAP\<close> whose source existed when the run
  began, and the reported enemy count is the number of enemy frames whose source
  existed: each such item was converted (its destination file exists at the end) and
  counted once, and no other item was counted. The wall count is at most 10, the number
  of entries, and the enemy count at most 59, the sum of the four frame counts.
\<close>

theorem counter_bounds:
  assumes "main script_dir w = (Inr (), w')"
  shows "last (console w') = done_line (walls_present w WALL_MAP) (enemies_present w ENEMIES) \<and>
         walls_present w WALL_MAP \<le> 10 \<and> enemies_present w ENEMIES \<le> 59 \<and>
         length WALL_MAP = 10 \<and> sum_list (map (\<lambda>(p, d, fs). length fs) ENEMIES) = 59 \<and>
         (\<forall>(s, d) \<in> set WALL_MAP. exists_path w (wall_src_path s) \<longrightarrow>
            files w' (wall_dst_path script_dir d) \<noteq> None) \<and>
         (\<forall>(p, d, fs) \<in> set ENEMIES. \<forall>f \<in> set fs. exists_path w (enemy_src_path p f) \<longrightarrow>
            files w' (enemy_dst_path (enemy_out_dir script_dir d) f) \<noteq> None)"
proof -
  note r = main_run [OF assms]
  have "walls_present w WALL_MAP \<le> 10"
    using walls_present_le [of w WALL_MAP] by (simp add: WALL_MAP_length)
  moreover have "enemies_present w ENEMIES \<le> 59"
    using enemies_present_le [of w ENEMIES] by (simp add: ENEMIES_frames)
  moreover have "\<forall>(p, d, fs) \<in> set ENEMIES. \<forall>f \<in> set fs. exists_path w (enemy_src_path p f) \<longrightarrow>
            files w' (enemy_dst_path (enemy_out_dir script_dir d) f) \<noteq> None"
    using r by fast
  ultimately show ?thesis
    using r WALL_MAP_length ENEMIES_frames by (intro conjI) simp_all
qed

theorem counter_bounds_witness:
  "fst (main repo_scripts small_world) = Inr () \<and>
   walls_present small_world WALL_MAP = 1 \<and> enemies_present small_world ENEMIES = 1 \<and>
   last (console (snd (main repo_scripts small_world))) = ''=== Done: 1 walls, 1 enemies ===''"
proof -
  have run: "main repo_scripts small_world = (Inr (), snd (main repo_scripts small_world))"
    using small_run by (simp add: prod_eq_iff)
  have "last (console (snd (main repo_scripts small_world))) =
          done_line (walls_present small_world WALL_MAP) (enemies_present small_world ENEMIES)"
    using counter_bounds [OF run] by (rule conjunct1)
  moreover have "done_line 1 1 = ''=== Done: 1 walls, 1 enemies ===''"
    by (simp add: done_line_def str_nat.simps)
  ultimately show ?thesis
    using small_run small_present by simp
qed

text \<open>
  Claim C10, as stated, fails: it says that every run creates the walls directory and
  the four enemy subdirectories before any conversion is attempted. In the first run
  below the first wall source exists but is not an image: the decoder's exception ends
  the run after the walls directory was created and before any enemy subdirectory is.
  In the second world the first wall source is a bitmap: when the walls part of \<^verbatim>\<open>main\<close>
  is over, the wall has been converted and written and no enemy subdirectory exists
  yet.
\<close>

theorem directories_counterexample:
  "fst (main repo_scripts junk_world) = Inl UnidentifiedImageError \<and>
   walls_dir repo_scripts \<in> dirs (snd (main repo_scripts junk_world)) \<and>
   enemy_out_dir repo_scripts ''guard'' \<notin> dirs (snd (main repo_scripts junk_world)) \<and>
   enemy_out_dir repo_scripts ''officer'' \<notin> dirs (snd (main repo_scripts junk_world)) \<and>
   enemy_out_dir repo_scripts ''ss'' \<notin> dirs (snd (main repo_scripts junk_world)) \<and>
   enemy_out_dir repo_scripts ''mutant'' \<notin> dirs (snd (main repo_scripts junk_world)) \<and>
   fst (main_walls repo_scripts small_world) = Inr 1 \<and>
   files (snd (main_walls repo_scripts small_world)) (wall_dst_path repo_scripts ''wall_0.png'') =
     Some (Png \<lparr>size_w = 1, size_h = 2, data = [(112, 112, 112, 255), (96, 96, 96, 255)]\<rparr>) \<and>
   enemy_out_dir repo_scripts ''guard'' \<notin> dirs (snd (main_walls repo_scripts small_world))"
  using junk_run small_walls_run by (intro conjI)

text \<open>
  Claim C10, amended (directory creation). Every run that ends without an exception
  has created the walls directory and the four enemy subdirectories, also when every
  source file is missing and zero items are converted. The walls directory is created
  before any wall conversion is attempted, and the subdirectory of a category before
  any frame of that category is attempted: when one of them is not there at the end of
  its part of the run, that part ended in the call of \<^verbatim>\<open>ensure_dir\<close> that should have
  made it, with the exception that this call raised.
\<close>

theorem directories_created:
  "(main script_dir w = (Inr (), w') \<longrightarrow>
      walls_dir script_dir \<in> dirs w' \<and>
      (\<forall>(p, d, fs) \<in> set ENEMIES. enemy_out_dir script_dir d \<in> dirs w')) \<and>
   (main script_dir w = (Inr (), w') \<and>
    (\<forall>(s, d) \<in> set WALL_MAP. \<not> exists_path w (wall_src_path s)) \<and>
    (\<forall>(p, d, fs) \<in> set ENEMIES. \<forall>f \<in> set fs. \<not> exists_path w (enemy_src_path p f)) \<longrightarrow>
      last (console w') = done_line 0 0 \<and>
      walls_dir script_dir \<in> dirs w' \<and>
      (\<forall>(p, d, fs) \<in> set ENEMIES. enemy_out_dir script_dir d \<in> dirs w')) \<and>
   (main_walls script_dir w = (r2, w2) \<longrightarrow>
      walls_dir script_dir \<in> dirs w2 \<or>
      (\<exists>e. r2 = Inl e \<and>
           ensure_dir (walls_dir script_dir) (py_print ''Converting wall textures...'' w) =
             (Inl e, w2))) \<and>
   ((prefix, dirname, frames) \<in> set ENEMIES \<and> set rest \<subseteq> set ENEMIES \<and>
    enemy_loop script_dir ((prefix, dirname, frames) # rest) enemy_count w = (r3, w3) \<longrightarrow>
      enemy_out_dir script_dir dirname \<in> dirs w3 \<or>
      (\<exists>e. r3 = Inl e \<and> ensure_dir (enemy_out_dir script_dir dirname) w = (Inl e, w3)))"
proof (intro conjI impI)
  assume "main script_dir w = (Inr (), w')"
  from main_run [OF this]
  show "walls_dir script_dir \<in> dirs w'"
    and "\<forall>(p, d, fs) \<in> set ENEMIES. enemy_out_dir script_dir d \<in> dirs w'"
    by fast+
next
  assume a: "main script_dir w = (Inr (), w') \<and>
    (\<forall>(s, d) \<in> set WALL_MAP. \<not> exists_path w (wall_src_path s)) \<and>
    (\<forall>(p, d, fs) \<in> set ENEMIES. \<forall>f \<in> set fs. \<not> exists_path w (enemy_src_path p f))"
  then have m: "main script_dir w = (Inr (), w')" by simp
  note r = main_run [OF m]
  have c: "walls_present w WALL_MAP = 0" "enemies_present w ENEMIES = 0"
    using a walls_missing_count enemies_missing_count by blast+
  show "last (console w') = done_line 0 0" using r c by simp
  show "walls_dir script_dir \<in> dirs w'" using r by simp
  show "\<forall>(p, d, fs) \<in> set ENEMIES. enemy_out_dir script_dir d \<in> dirs w'"
    using r by fast
next
  assume "main_walls script_dir w = (r2, w2)"
  then show "walls_dir script_dir \<in> dirs w2 \<or>
      (\<exists>e. r2 = Inl e \<and>
           ensure_dir (walls_dir script_dir) (py_print ''Converting wall textures...'' w) =
             (Inl e, w2))"
    by (rule main_walls_dir_first)
next
  assume a: "(prefix, dirname, frames) \<in> set ENEMIES \<and> set rest \<subseteq> set ENEMIES \<and>
    enemy_loop script_dir ((prefix, dirname, frames) # rest) enemy_count w = (r3, w3)"
  have "plain_name dirname"
    using a ENEMIES_names by fast
  moreover have "\<forall>(p, d, fs) \<in> set rest. plain_name d"
    using a ENEMIES_names by fast
  ultimately show "enemy_out_dir script_dir dirname \<in> dirs w3 \<or>
      (\<exists>e. r3 = Inl e \<and> ensure_dir (enemy_out_dir script_dir dirname) w = (Inl e, w3))"
    using a enemy_loop_dir_first by blast
qed

theorem directories_created_witness:
  "fst (main repo_scripts bare_world) = Inr () \<and>
   last (console (snd (main repo_scripts bare_world))) = ''=== Done: 0 walls, 0 enemies ==='' \<and>
   ''/repo/scripts/../public/assets/walls'' \<in> dirs (snd (main repo_scripts bare_world)) \<and>
   ''/repo/scripts/../public/assets/enemies/guard'' \<in> dirs (snd (main repo_scripts bare_world)) \<and>
   ''/repo/scripts/../public/assets/enemies/officer'' \<in> dirs (snd (main repo_scripts bare_world)) \<and>
   ''/repo/scripts/../public/assets/enemies/ss'' \<in> dirs (snd (main repo_scripts bare_world)) \<and>
   ''/repo/scripts/../public/assets/enemies/mutant'' \<in> dirs (snd (main repo_scripts bare_world))"
proof -
  let ?w' = "snd (main repo_scripts bare_world)"
  have run: "main repo_scripts bare_world = (Inr (), ?w')"
    using bare_run by (simp add: prod_eq_iff)
  have mw: "\<forall>(s, d) \<in> set WALL_MAP. \<not> exists_path bare_world (wall_src_path s)"
    using WALL_MAP_names bmp_wall_src bare_missing by fast
  have mf: "\<forall>(p, d, fs) \<in> set ENEMIES. \<forall>f \<in> set fs. \<not> exists_path bare_world (enemy_src_path p f)"
    using bmp_enemy_src bare_missing by fast
  note t = directories_created [where script_dir = repo_scripts and w = bare_world and w' = ?w']
  have "last (console ?w') = done_line 0 0 \<and>
      walls_dir repo_scripts \<in> dirs ?w' \<and>
      (\<forall>(p, d, fs) \<in> set ENEMIES. enemy_out_dir repo_scripts d \<in> dirs ?w')"
    using t [THEN conjunct2, THEN conjunct1] run mw mf by blast
  then have c: "last (console ?w') = done_line 0 0"
    and wd: "walls_dir repo_scripts \<in> dirs ?w'"
    and ed: "\<forall>(p, d, fs) \<in> set ENEMIES. enemy_out_dir repo_scripts d \<in> dirs ?w'"
    by simp_all
  have mem: "(''GARD'', ''guard'', ''ABCDEFGHIJKLMN'') \<in> set ENEMIES"
    "(''OFFI'', ''officer'', ''ABCDEFGHIJKLMNO'') \<in> set ENEMIES"
    "(''NZSS'', ''ss'', ''ABCDEFGHIJKLMN'') \<in> set ENEMIES"
    "(''MTNT'', ''mutant'', ''ABCDEFGHIJKLMNOP'') \<in> set ENEMIES"
    by (simp_all add: ENEMIES_def)
  have ds: "enemy_out_dir repo_scripts ''guard'' \<in> dirs ?w'"
    "enemy_out_dir repo_scripts ''officer'' \<in> dirs ?w'"
    "enemy_out_dir repo_scripts ''ss'' \<in> dirs ?w'"
    "enemy_out_dir repo_scripts ''mutant'' \<in> dirs ?w'"
    using ed mem by fast+
  have dl: "done_line 0 0 = ''=== Done: 0 walls, 0 enemies ===''"
    by (simp add: done_line_def str_nat.simps)
  show ?thesis
    using bare_run c wd ds unfolding out_dirs dl by (intro conjI)
qed

end
